theory Spec2Isabelle
  imports Complex_Main
begin

section \<open>Scalars\<close>

text \<open>
  A Python float or a tensor element.  Finite floats are idealised as real numbers
  (no rounding, no overflow to infinity, no integer element type); the not-a-number
  value is kept, because the mean of an empty tensor produces it and every later
  operation propagates it.  The operations below stand for the operations of the
  tensor library, and the properties of \<^verbatim>\<open>forward\<close> are stated in these operations: which
  of them are applied, to what, and in which order.  Where a property gives a number,
  the inputs and all intermediate values are small integers or halves, which binary
  floating point represents exactly.
\<close>

datatype fl = Fin real | NaN

fun fl_add :: "fl \<Rightarrow> fl \<Rightarrow> fl" where
  "fl_add (Fin a) (Fin b) = Fin (a + b)"
| "fl_add _ _ = NaN"

fun fl_sub :: "fl \<Rightarrow> fl \<Rightarrow> fl" where
  "fl_sub (Fin a) (Fin b) = Fin (a - b)"
| "fl_sub _ _ = NaN"

fun fl_mul :: "fl \<Rightarrow> fl \<Rightarrow> fl" where
  "fl_mul (Fin a) (Fin b) = Fin (a * b)"
| "fl_mul _ _ = NaN"

fun fl_abs :: "fl \<Rightarrow> fl" where
  "fl_abs (Fin a) = Fin \<bar>a\<bar>"
| "fl_abs NaN = NaN"

text \<open>Division of a sum by an element count; \<open>0.0 / 0\<close> is not a number.\<close>

fun fl_div_count :: "fl \<Rightarrow> nat \<Rightarrow> fl" where
  "fl_div_count (Fin s) n = (if n = 0 then NaN else Fin (s / real n))"
| "fl_div_count NaN n = NaN"

definition l1_elem :: "fl \<Rightarrow> fl \<Rightarrow> fl" where
  "l1_elem a b = fl_abs (fl_sub a b)"

definition fl_sum :: "fl list \<Rightarrow> fl" where
  "fl_sum xs = foldl fl_add (Fin 0) xs"

section \<open>Tensors of the array library\<close>

text \<open>
  An n-dimensional array, nested along its leading dimension: \<open>Num\<close> is a 0-d tensor
  (a Python float behaves the same in every operation used here), \<open>Arr\<close> lists the
  slices along the leading dimension.  An empty array has shape \<open>[0]\<close>.
\<close>

datatype tensor = Num fl | Arr "tensor list"

fun shape :: "tensor \<Rightarrow> nat list" where
  "shape (Num a) = []"
| "shape (Arr []) = [0]"
| "shape (Arr (x # xs)) = Suc (length xs) # shape x"

fun rank :: "tensor \<Rightarrow> nat" where
  "rank (Num a) = 0"
| "rank (Arr []) = 1"
| "rank (Arr (x # xs)) = Suc (rank x)"

text \<open>Rectangular arrays: all slices along a dimension have one shape.\<close>

fun wf_tensor :: "tensor \<Rightarrow> bool" where
  "wf_tensor (Num a) = True"
| "wf_tensor (Arr xs) = (\<forall>x \<in> set xs. wf_tensor x \<and> shape x = shape (hd xs))"

fun flatten :: "tensor \<Rightarrow> fl list" where
  "flatten (Num a) = [a]"
| "flatten (Arr xs) = concat (map flatten xs)"

definition numel :: "tensor \<Rightarrow> nat" where
  "numel t = length (flatten t)"

datatype value_error =
    BadReduction string
  | OddLength nat string
  | BroadcastMismatch

datatype error =
    ValueError value_error
  | KeyError string
  | AssertionError

definition bind_err :: "error + 'a \<Rightarrow> ('a \<Rightarrow> error + 'b) \<Rightarrow> error + 'b" where
  "bind_err m f = (case m of Inl e \<Rightarrow> Inl e | Inr v \<Rightarrow> f v)"

text \<open>
  Broadcasting of two shapes, read from the trailing dimension (both arguments are
  reversed shapes): two extents are compatible when they are equal or one of them is 1.
\<close>

fun bshape :: "nat list \<Rightarrow> nat list \<Rightarrow> nat list option" where
  "bshape [] ys = Some ys"
| "bshape (x # xs) [] = Some (x # xs)"
| "bshape (x # xs) (y # ys) =
     (if x = y \<or> y = 1 then map_option ((#) x) (bshape xs ys)
      else if x = 1 then map_option ((#) y) (bshape xs ys)
      else None)"

definition broadcastable :: "tensor \<Rightarrow> tensor \<Rightarrow> bool" where
  "broadcastable a b = (bshape (rev (shape a)) (rev (shape b)) \<noteq> None)"

text \<open>The elementwise binary operation on two broadcastable tensors.\<close>

function bop :: "(fl \<Rightarrow> fl \<Rightarrow> fl) \<Rightarrow> tensor \<Rightarrow> tensor \<Rightarrow> tensor" where
  "bop f (Num a) (Num b) = Num (f a b)"
| "bop f (Num a) (Arr ys) = Arr (map (\<lambda>y. bop f (Num a) y) ys)"
| "bop f (Arr xs) (Num b) = Arr (map (\<lambda>x. bop f x (Num b)) xs)"
| "bop f (Arr xs) (Arr ys) =
     (if rank (Arr xs) < rank (Arr ys) then Arr (map (\<lambda>y. bop f (Arr xs) y) ys)
      else if rank (Arr ys) < rank (Arr xs) then Arr (map (\<lambda>x. bop f x (Arr ys)) xs)
      else if length xs = length ys then Arr (map (\<lambda>(x, y). bop f x y) (zip xs ys))
      else if length xs = 1 then Arr (map (\<lambda>y. bop f (hd xs) y) ys)
      else if length ys = 1 then Arr (map (\<lambda>x. bop f x (hd ys)) xs)
      else Arr [])"
  by pat_completeness auto

lemma size_mem: "x \<in> set xs \<Longrightarrow> size x < Suc (size_list size xs)"
  by (induction xs) auto

termination bop
proof (relation "measure (\<lambda>(f, a, b). size a + size b)", goal_cases)
  case 1
  show ?case by simp
next
  case (2 f a ys y)
  then show ?case using size_mem[of y ys] by simp
next
  case (3 f xs b x)
  then show ?case using size_mem[of x xs] by simp
next
  case (4 f xs ys y)
  then show ?case using size_mem[of y ys] by simp
next
  case (5 f xs ys x)
  then show ?case using size_mem[of x xs] by simp
next
  case (6 f xs ys z x y)
  then have "x \<in> set xs" "y \<in> set ys"
    by (auto dest: set_zip_leftD set_zip_rightD)
  then show ?case using size_mem[of x xs] size_mem[of y ys] by simp
next
  case (7 f xs ys y)
  then have "hd xs \<in> set xs" by (cases xs) auto
  then show ?case using size_mem[of "hd xs" xs] size_mem[of y ys] 7 by simp
next
  case (8 f xs ys x)
  then have "hd ys \<in> set ys" by (cases ys) auto
  then show ?case using size_mem[of "hd ys" ys] size_mem[of x xs] 8 by simp
qed

text \<open>
  A binary tensor operation of the library: it raises a \<open>ValueError\<close> when the two
  shapes cannot be broadcast, and returns a new tensor otherwise.
\<close>

definition binary_op :: "(fl \<Rightarrow> fl \<Rightarrow> fl) \<Rightarrow> tensor \<Rightarrow> tensor \<Rightarrow> error + tensor" where
  "binary_op f a b =
     (if broadcastable a b then Inr (bop f a b) else Inl (ValueError BroadcastMismatch))"

text \<open>\<^verbatim>\<open>F.l1_loss(input, label, "none")\<close>: the elementwise absolute difference.\<close>

definition l1_loss_none :: "tensor \<Rightarrow> tensor \<Rightarrow> error + tensor" where
  "l1_loss_none input label = binary_op l1_elem input label"

text \<open>\<^verbatim>\<open>a * b\<close> and \<^verbatim>\<open>a + b\<close> on tensors (or a tensor and a float).\<close>

definition mul :: "tensor \<Rightarrow> tensor \<Rightarrow> error + tensor" where
  "mul a b = binary_op fl_mul a b"

definition add :: "tensor \<Rightarrow> tensor \<Rightarrow> error + tensor" where
  "add a b = binary_op fl_add a b"

text \<open>\<^verbatim>\<open>t.sum()\<close> and \<^verbatim>\<open>t.mean()\<close>: reductions over all elements to a 0-d tensor.\<close>

definition tsum :: "tensor \<Rightarrow> tensor" where
  "tsum t = Num (fl_sum (flatten t))"

definition tmean :: "tensor \<Rightarrow> tensor" where
  "tmean t = Num (fl_div_count (fl_sum (flatten t)) (numel t))"

text \<open>
  \<^verbatim>\<open>len(t)\<close> is the extent of the leading dimension; the library refuses a 0-d tensor
  with an assertion.  \<^verbatim>\<open>t[:n]\<close> and \<^verbatim>\<open>t[n:]\<close> cut along the leading dimension (the
  code only slices a tensor whose \<^verbatim>\<open>len\<close> it has taken).
\<close>

fun len :: "tensor \<Rightarrow> error + nat" where
  "len (Num a) = Inl AssertionError"
| "len (Arr xs) = Inr (length xs)"

fun rows :: "tensor \<Rightarrow> tensor list" where
  "rows (Num a) = []"
| "rows (Arr xs) = xs"

definition slice_to :: "nat \<Rightarrow> tensor \<Rightarrow> tensor" where
  "slice_to n t = Arr (take n (rows t))"

definition slice_from :: "nat \<Rightarrow> tensor \<Rightarrow> tensor" where
  "slice_from n t = Arr (drop n (rows t))"

section \<open>The loss objects\<close>

text \<open>
  The constructor argument \<^verbatim>\<open>weight: Optional[Union[float, Dict[str, float]]]\<close>.
\<close>

datatype weight_cfg = NoWeight | FloatWeight fl | DictWeight "(string \<times> fl) list"

record Loss =
  reduction :: string
  weight :: weight_cfg

text \<open>
  Modelled from the spec: \<^verbatim>\<open>base.Loss.__init__\<close> (ppsci/loss/base.py) is not among the
  sources.  The spec's data model says that the reduction mode and the weight
  configuration are "set at construction" and immutable, and both \<^verbatim>\<open>forward\<close> methods
  read \<^verbatim>\<open>self.reduction\<close> and \<^verbatim>\<open>self.weight\<close>: the base constructor stores its two
  arguments under these names.
\<close>

definition Loss_init :: "string \<Rightarrow> weight_cfg \<Rightarrow> Loss" where
  "Loss_init r w = \<lparr>reduction = r, weight = w\<rparr>"

text \<open>\<^verbatim>\<open>L1Loss.__init__\<close> (l1.py, lines 45-54).\<close>

definition L1Loss_init :: "string \<Rightarrow> weight_cfg \<Rightarrow> error + Loss" where
  "L1Loss_init r w =
     (if r \<notin> set [''mean'', ''sum''] then Inl (ValueError (BadReduction r))
      else Inr (Loss_init r w))"

text \<open>\<^verbatim>\<open>PeriodicL1Loss.__init__\<close> (l1.py, lines 91-100).\<close>

definition PeriodicL1Loss_init :: "string \<Rightarrow> weight_cfg \<Rightarrow> error + Loss" where
  "PeriodicL1Loss_init r w =
     (if r \<notin> set [''mean'', ''sum''] then Inl (ValueError (BadReduction r))
      else Inr (Loss_init r w))"

section \<open>The steps of \<^verbatim>\<open>forward\<close>\<close>

text \<open>
  A dict is an association list with distinct keys, in insertion order; \<^verbatim>\<open>d[key]\<close>
  raises \<open>KeyError\<close> on a missing key.
\<close>

type_synonym tensor_dict = "(string \<times> tensor) list"

definition getitem :: "(string \<times> 'v) list \<Rightarrow> string \<Rightarrow> error + 'v" where
  "getitem d key = (case map_of d key of None \<Rightarrow> Inl (KeyError key) | Some v \<Rightarrow> Inr v)"

text \<open>
  \<^verbatim>\<open>if weight_dict is not None: loss *= weight_dict[key]\<close>
  (lines 60-61 and 115-116).
\<close>

definition apply_weight_dict :: "tensor_dict option \<Rightarrow> string \<Rightarrow> tensor \<Rightarrow> error + tensor" where
  "apply_weight_dict weight_dict key loss =
     (case weight_dict of
        None \<Rightarrow> Inr loss
      | Some d \<Rightarrow> bind_err (getitem d key) (\<lambda>w. mul loss w))"

text \<open>
  \<^verbatim>\<open>if isinstance(self.weight, float): loss *= self.weight\<close>
  \<^verbatim>\<open>elif isinstance(self.weight, dict) and key in self.weight: loss *= self.weight[key]\<close>
  (lines 62-65, 75-78 and 125-128).
\<close>

definition apply_weight :: "Loss \<Rightarrow> string \<Rightarrow> tensor \<Rightarrow> error + tensor" where
  "apply_weight self key loss =
     (case weight self of
        FloatWeight w \<Rightarrow> mul loss (Num w)
      | DictWeight d \<Rightarrow>
          (case map_of d key of Some w \<Rightarrow> mul loss (Num w) | None \<Rightarrow> Inr loss)
      | NoWeight \<Rightarrow> Inr loss)"

text \<open>
  \<^verbatim>\<open>if "area" in output_dict: loss *= output_dict["area"]\<close>
  (lines 67-68 and 117-118).
\<close>

definition apply_area :: "tensor_dict \<Rightarrow> tensor \<Rightarrow> error + tensor" where
  "apply_area output_dict loss =
     (case map_of output_dict ''area'' of Some area \<Rightarrow> mul loss area | None \<Rightarrow> Inr loss)"

text \<open>
  \<^verbatim>\<open>if self.reduction == "sum": loss = loss.sum()\<close>
  \<^verbatim>\<open>elif self.reduction == "mean": loss = loss.mean()\<close>
  (lines 70-73 and 120-123).
\<close>

definition reduce :: "Loss \<Rightarrow> tensor \<Rightarrow> tensor" where
  "reduce self loss =
     (if reduction self = ''sum'' then tsum loss
      else if reduction self = ''mean'' then tmean loss
      else loss)"

section \<open>\<^verbatim>\<open>L1Loss.forward\<close>\<close>

text \<open>The body of the loop for one key (lines 59-78): the value added to \<^verbatim>\<open>losses\<close>.\<close>

definition L1Loss_key_loss ::
  "Loss \<Rightarrow> tensor_dict \<Rightarrow> tensor_dict \<Rightarrow> tensor_dict option \<Rightarrow> string \<Rightarrow> error + tensor" where
  "L1Loss_key_loss self output_dict label_dict weight_dict key =
     bind_err (getitem output_dict key) (\<lambda>out.
     bind_err (getitem label_dict key) (\<lambda>label.
     bind_err (l1_loss_none out label) (\<lambda>loss.
     bind_err (apply_weight_dict weight_dict key loss) (\<lambda>loss.
     bind_err (apply_weight self key loss) (\<lambda>loss.
     bind_err (apply_area output_dict loss) (\<lambda>loss.
     apply_weight self key (reduce self loss)))))))"

text \<open>The loop over the keys of \<^verbatim>\<open>label_dict\<close>, with the accumulator \<^verbatim>\<open>losses\<close>.\<close>

fun L1Loss_loop ::
  "Loss \<Rightarrow> tensor_dict \<Rightarrow> tensor_dict \<Rightarrow> tensor_dict option \<Rightarrow> tensor \<Rightarrow> string list
   \<Rightarrow> error + tensor" where
  "L1Loss_loop self output_dict label_dict weight_dict losses [] = Inr losses"
| "L1Loss_loop self output_dict label_dict weight_dict losses (key # keys) =
     (case L1Loss_key_loss self output_dict label_dict weight_dict key of
        Inl e \<Rightarrow> Inl e
      | Inr loss \<Rightarrow>
          (case add losses loss of
             Inl e \<Rightarrow> Inl e
           | Inr losses' \<Rightarrow> L1Loss_loop self output_dict label_dict weight_dict losses' keys))"

definition L1Loss_forward ::
  "Loss \<Rightarrow> tensor_dict \<Rightarrow> tensor_dict \<Rightarrow> tensor_dict option \<Rightarrow> error + tensor" where
  "L1Loss_forward self output_dict label_dict weight_dict =
     L1Loss_loop self output_dict label_dict weight_dict (Num (Fin 0)) (map fst label_dict)"

section \<open>\<^verbatim>\<open>PeriodicL1Loss.forward\<close>\<close>

text \<open>
  Lines 105-114: the length check and the elementwise loss between the two halves of
  the output tensor.
\<close>

definition periodic_elementwise :: "tensor_dict \<Rightarrow> string \<Rightarrow> error + tensor" where
  "periodic_elementwise output_dict key =
     bind_err (getitem output_dict key) (\<lambda>out.
     bind_err (len out) (\<lambda>n_output.
       if n_output mod 2 > 0 then Inl (ValueError (OddLength n_output key))
       else l1_loss_none (slice_to (n_output div 2) out) (slice_from (n_output div 2) out)))"

text \<open>The body of the loop for one key (lines 105-128).\<close>

definition PeriodicL1Loss_key_loss ::
  "Loss \<Rightarrow> tensor_dict \<Rightarrow> tensor_dict option \<Rightarrow> string \<Rightarrow> error + tensor" where
  "PeriodicL1Loss_key_loss self output_dict weight_dict key =
     bind_err (periodic_elementwise output_dict key) (\<lambda>loss.
     bind_err (apply_weight_dict weight_dict key loss) (\<lambda>loss.
     bind_err (apply_area output_dict loss) (\<lambda>loss.
     apply_weight self key (reduce self loss))))"

fun PeriodicL1Loss_loop ::
  "Loss \<Rightarrow> tensor_dict \<Rightarrow> tensor_dict option \<Rightarrow> tensor \<Rightarrow> string list \<Rightarrow> error + tensor" where
  "PeriodicL1Loss_loop self output_dict weight_dict losses [] = Inr losses"
| "PeriodicL1Loss_loop self output_dict weight_dict losses (key # keys) =
     (case PeriodicL1Loss_key_loss self output_dict weight_dict key of
        Inl e \<Rightarrow> Inl e
      | Inr loss \<Rightarrow>
          (case add losses loss of
             Inl e \<Rightarrow> Inl e
           | Inr losses' \<Rightarrow> PeriodicL1Loss_loop self output_dict weight_dict losses' keys))"

definition PeriodicL1Loss_forward ::
  "Loss \<Rightarrow> tensor_dict \<Rightarrow> tensor_dict \<Rightarrow> tensor_dict option \<Rightarrow> error + tensor" where
  "PeriodicL1Loss_forward self output_dict label_dict weight_dict =
     PeriodicL1Loss_loop self output_dict weight_dict (Num (Fin 0)) (map fst label_dict)"

section \<open>The call with an explicit object store\<close>

text \<open>
  To state what a call changes, the objects of the program live in a store: a tensor
  object is an address into \<open>heap\<close>, the dicts map keys to addresses, and the state of a
  call holds the store, \<^verbatim>\<open>self\<close> and the three argument dicts.  A statement takes a state
  and returns a value or an exception, and the state it leaves.  References in the dicts
  point to allocated objects (\<open>valid_refs\<close> below).
\<close>

type_synonym addr = nat

type_synonym ref_dict = "(string \<times> addr) list"

record call_state =
  heap :: "tensor list"
  self_obj :: Loss
  output_refs :: ref_dict
  label_refs :: ref_dict
  weight_refs :: "ref_dict option"

text \<open>
  \<^verbatim>\<open>losses\<close> starts as a Python float and is a tensor object from the first
  \<^verbatim>\<open>losses += loss\<close> on.
\<close>

datatype pyval = PyFloat fl | TensorRef addr

type_synonym 'a stmt = "call_state \<Rightarrow> (error + 'a) \<times> call_state"

definition st_bind :: "'a stmt \<Rightarrow> ('a \<Rightarrow> 'b stmt) \<Rightarrow> 'b stmt" where
  "st_bind m f s = (case m s of (Inl e, s') \<Rightarrow> (Inl e, s') | (Inr v, s') \<Rightarrow> f v s')"

definition st_lift :: "error + 'a \<Rightarrow> 'a stmt" where
  "st_lift r s = (r, s)"

text \<open>
  A call into the tensor library returns a new tensor object.
\<close>

definition new_tensor :: "error + tensor \<Rightarrow> addr stmt" where
  "new_tensor r s =
     (case r of
        Inl e \<Rightarrow> (Inl e, s)
      | Inr v \<Rightarrow> (Inr (length (heap s)), s\<lparr>heap := heap s @ [v]\<rparr>))"

text \<open>
  \<^verbatim>\<open>loss *= x\<close>, read as an update in place: the object bound to \<^verbatim>\<open>loss\<close> is overwritten with
  the product.  (If the library rebinds \<^verbatim>\<open>loss\<close> to a new object instead, no existing
  object is written at all.)
\<close>

definition imul :: "addr \<Rightarrow> tensor \<Rightarrow> addr stmt" where
  "imul loss x s =
     (case mul (heap s ! loss) x of
        Inl e \<Rightarrow> (Inl e, s)
      | Inr v \<Rightarrow> (Inr loss, s\<lparr>heap := (heap s)[loss := v]\<rparr>))"

text \<open>Lines 60-61 and 115-116.\<close>

definition imul_weight_dict :: "string \<Rightarrow> addr \<Rightarrow> addr stmt" where
  "imul_weight_dict key loss s =
     (case weight_refs s of
        None \<Rightarrow> (Inr loss, s)
      | Some d \<Rightarrow>
          (case getitem d key of
             Inl e \<Rightarrow> (Inl e, s)
           | Inr w \<Rightarrow> imul loss (heap s ! w) s))"

text \<open>Lines 62-65, 75-78 and 125-128.\<close>

definition imul_weight :: "string \<Rightarrow> addr \<Rightarrow> addr stmt" where
  "imul_weight key loss s =
     (case weight (self_obj s) of
        FloatWeight w \<Rightarrow> imul loss (Num w) s
      | DictWeight d \<Rightarrow>
          (case map_of d key of Some w \<Rightarrow> imul loss (Num w) s | None \<Rightarrow> (Inr loss, s))
      | NoWeight \<Rightarrow> (Inr loss, s))"

text \<open>Lines 67-68 and 117-118.\<close>

definition imul_area :: "addr \<Rightarrow> addr stmt" where
  "imul_area loss s =
     (case map_of (output_refs s) ''area'' of
        Some area \<Rightarrow> imul loss (heap s ! area) s
      | None \<Rightarrow> (Inr loss, s))"

text \<open>Lines 70-73 and 120-123: \<^verbatim>\<open>loss = loss.sum()\<close> binds \<^verbatim>\<open>loss\<close> to a new object.\<close>

definition reduce_st :: "addr \<Rightarrow> addr stmt" where
  "reduce_st loss s =
     (if reduction (self_obj s) = ''sum'' then new_tensor (Inr (tsum (heap s ! loss))) s
      else if reduction (self_obj s) = ''mean'' then new_tensor (Inr (tmean (heap s ! loss))) s
      else (Inr loss, s))"

text \<open>
  \<^verbatim>\<open>losses += loss\<close> (lines 80 and 130): on the float \<^verbatim>\<open>0.0\<close> the sum is a new tensor
  object; on a tensor the accumulator is updated in place.
\<close>

definition iadd :: "pyval \<Rightarrow> addr \<Rightarrow> pyval stmt" where
  "iadd losses loss s =
     (case losses of
        PyFloat f \<Rightarrow>
          (case add (Num f) (heap s ! loss) of
             Inl e \<Rightarrow> (Inl e, s)
           | Inr v \<Rightarrow> (Inr (TensorRef (length (heap s))), s\<lparr>heap := heap s @ [v]\<rparr>))
      | TensorRef a \<Rightarrow>
          (case add (heap s ! a) (heap s ! loss) of
             Inl e \<Rightarrow> (Inl e, s)
           | Inr v \<Rightarrow> (Inr (TensorRef a), s\<lparr>heap := (heap s)[a := v]\<rparr>)))"

text \<open>\<^verbatim>\<open>L1Loss.forward\<close> (lines 56-81).\<close>

definition L1Loss_key_st :: "string \<Rightarrow> addr stmt" where
  "L1Loss_key_st key =
     st_bind (\<lambda>s. st_lift (getitem (output_refs s) key) s) (\<lambda>out.
     st_bind (\<lambda>s. st_lift (getitem (label_refs s) key) s) (\<lambda>label.
     st_bind (\<lambda>s. new_tensor (l1_loss_none (heap s ! out) (heap s ! label)) s) (\<lambda>loss.
     st_bind (imul_weight_dict key loss) (\<lambda>loss.
     st_bind (imul_weight key loss) (\<lambda>loss.
     st_bind (imul_area loss) (\<lambda>loss.
     st_bind (reduce_st loss) (\<lambda>loss.
     imul_weight key loss)))))))"

fun L1Loss_loop_st :: "pyval \<Rightarrow> string list \<Rightarrow> pyval stmt" where
  "L1Loss_loop_st losses [] = st_lift (Inr losses)"
| "L1Loss_loop_st losses (key # keys) =
     st_bind (L1Loss_key_st key) (\<lambda>loss.
     st_bind (iadd losses loss) (\<lambda>losses'.
     L1Loss_loop_st losses' keys))"

definition L1Loss_forward_st :: "pyval stmt" where
  "L1Loss_forward_st s = L1Loss_loop_st (PyFloat (Fin 0)) (map fst (label_refs s)) s"

text \<open>\<^verbatim>\<open>PeriodicL1Loss.forward\<close> (lines 102-131).\<close>

definition PeriodicL1Loss_key_st :: "string \<Rightarrow> addr stmt" where
  "PeriodicL1Loss_key_st key =
     st_bind (\<lambda>s. st_lift (getitem (output_refs s) key) s) (\<lambda>out.
     st_bind (\<lambda>s. st_lift (len (heap s ! out)) s) (\<lambda>n_output.
     st_bind (\<lambda>s.
       if n_output mod 2 > 0 then (Inl (ValueError (OddLength n_output key)), s)
       else new_tensor (l1_loss_none (slice_to (n_output div 2) (heap s ! out))
              (slice_from (n_output div 2) (heap s ! out))) s) (\<lambda>loss.
     st_bind (imul_weight_dict key loss) (\<lambda>loss.
     st_bind (imul_area loss) (\<lambda>loss.
     st_bind (reduce_st loss) (\<lambda>loss.
     imul_weight key loss))))))"

fun PeriodicL1Loss_loop_st :: "pyval \<Rightarrow> string list \<Rightarrow> pyval stmt" where
  "PeriodicL1Loss_loop_st losses [] = st_lift (Inr losses)"
| "PeriodicL1Loss_loop_st losses (key # keys) =
     st_bind (PeriodicL1Loss_key_st key) (\<lambda>loss.
     st_bind (iadd losses loss) (\<lambda>losses'.
     PeriodicL1Loss_loop_st losses' keys))"

definition PeriodicL1Loss_forward_st :: "pyval stmt" where
  "PeriodicL1Loss_forward_st s =
     PeriodicL1Loss_loop_st (PyFloat (Fin 0)) (map fst (label_refs s)) s"

section \<open>Notions used to state the properties\<close>

text \<open>A tensor with a function applied to every element, and a tensor scaled by a float.\<close>

fun tmap :: "(fl \<Rightarrow> fl) \<Rightarrow> tensor \<Rightarrow> tensor" where
  "tmap g (Num a) = Num (g a)"
| "tmap g (Arr xs) = Arr (map (tmap g) xs)"

definition scale :: "fl \<Rightarrow> tensor \<Rightarrow> tensor" where
  "scale w t = tmap (\<lambda>x. fl_mul x w) t"

text \<open>
  The reading of claim C1 for the periodic variant: the constructor weight applied
  before and after the reduction, the way \<^verbatim>\<open>L1Loss.forward\<close> applies it.  It is
  compared with \<open>PeriodicL1Loss_key_loss\<close>, the translation of the source.
\<close>

definition claimed_periodic_key_loss ::
  "Loss \<Rightarrow> tensor_dict \<Rightarrow> tensor_dict option \<Rightarrow> string \<Rightarrow> error + tensor" where
  "claimed_periodic_key_loss self output_dict weight_dict key =
     bind_err (periodic_elementwise output_dict key) (\<lambda>loss.
     bind_err (apply_weight_dict weight_dict key loss) (\<lambda>loss.
     bind_err (apply_weight self key loss) (\<lambda>loss.
     bind_err (apply_area output_dict loss) (\<lambda>loss.
     apply_weight self key (reduce self loss)))))"

text \<open>
  The formulas of claim C4, in the claim's words: the sum over \<open>i\<close> of \<open>\<bar>x\<^sub>i - y\<^sub>i\<bar>\<close>, and
  \<open>1 / N\<close> times that sum, for the element lists \<open>xs\<close> and \<open>ys\<close> of the two tensors and
  \<open>N = length xs\<close>.  They are compared with \<open>L1Loss_key_loss\<close>, the translation of the
  source.
\<close>

definition claimed_l1_sum :: "real list \<Rightarrow> real list \<Rightarrow> real" where
  "claimed_l1_sum xs ys = (\<Sum>i<length xs. \<bar>xs ! i - ys ! i\<bar>)"

definition claimed_l1_mean :: "real list \<Rightarrow> real list \<Rightarrow> real" where
  "claimed_l1_mean xs ys = 1 / real (length xs) * claimed_l1_sum xs ys"

text \<open>
  The state \<open>s\<close> extends \<open>s0\<close>: same \<^verbatim>\<open>self\<close>, same dicts, and the objects of \<open>s0\<close> with
  their values, followed by new objects.  An address is fresh when it was allocated
  after \<open>s0\<close>.
\<close>

definition frame :: "call_state \<Rightarrow> call_state \<Rightarrow> bool" where
  "frame s0 s \<longleftrightarrow> (\<exists>new. s = s0\<lparr>heap := heap s0 @ new\<rparr>)"

definition fresh :: "call_state \<Rightarrow> addr \<Rightarrow> bool" where
  "fresh s0 a \<longleftrightarrow> length (heap s0) \<le> a"

fun fresh_val :: "call_state \<Rightarrow> pyval \<Rightarrow> bool" where
  "fresh_val s0 (PyFloat f) = True"
| "fresh_val s0 (TensorRef a) = fresh s0 a"

definition keeps_frame :: "call_state \<Rightarrow> ('a \<Rightarrow> bool) \<Rightarrow> 'a stmt \<Rightarrow> bool" where
  "keeps_frame s0 P m \<longleftrightarrow>
     (\<forall>s r s'. frame s0 s \<and> m s = (r, s') \<longrightarrow> frame s0 s' \<and> (\<forall>v. r = Inr v \<longrightarrow> P v))"

text \<open>
  The dicts of tensors that a state's reference dicts stand for, and the relation between
  a statement of the store model and the value-level function it implements.
\<close>

definition deref :: "tensor list \<Rightarrow> ref_dict \<Rightarrow> tensor_dict" where
  "deref h d = map (\<lambda>(key, a). (key, h ! a)) d"

fun value_of :: "tensor list \<Rightarrow> pyval \<Rightarrow> tensor" where
  "value_of h (PyFloat f) = Num f"
| "value_of h (TensorRef a) = h ! a"

definition valid_refs :: "call_state \<Rightarrow> bool" where
  "valid_refs s \<longleftrightarrow>
     list_all (\<lambda>(key, a). a < length (heap s)) (output_refs s) \<and>
     list_all (\<lambda>(key, a). a < length (heap s)) (label_refs s) \<and>
     (case weight_refs s of
        None \<Rightarrow> True
      | Some d \<Rightarrow> list_all (\<lambda>(key, a). a < length (heap s)) d)"

definition holds :: "call_state \<Rightarrow> call_state \<Rightarrow> addr \<Rightarrow> tensor \<Rightarrow> bool" where
  "holds s0 s a u \<longleftrightarrow> length (heap s0) \<le> a \<and> a < length (heap s) \<and> heap s ! a = u"

definition input_ref :: "call_state \<Rightarrow> addr \<Rightarrow> tensor \<Rightarrow> bool" where
  "input_ref s0 a u \<longleftrightarrow> a < length (heap s0) \<and> heap s0 ! a = u"

definition post :: "error + 'a \<Rightarrow> error + 'b \<Rightarrow> ('a \<Rightarrow> 'b \<Rightarrow> bool) \<Rightarrow> bool" where
  "post r p R \<longleftrightarrow> (case r of Inl e \<Rightarrow> p = Inl e | Inr v \<Rightarrow> (\<exists>u. p = Inr u \<and> R v u))"

definition sim ::
  "call_state \<Rightarrow> (call_state \<Rightarrow> bool) \<Rightarrow> 'a stmt \<Rightarrow> (call_state \<Rightarrow> 'a \<Rightarrow> 'b \<Rightarrow> bool) \<Rightarrow>
   error + 'b \<Rightarrow> bool" where
  "sim s0 Pre m R p \<longleftrightarrow>
     (\<forall>s r s'. frame s0 s \<and> Pre s \<and> m s = (r, s') \<longrightarrow>
        frame s0 s' \<and> post r p (R s'))"

fun holds_val :: "call_state \<Rightarrow> call_state \<Rightarrow> pyval \<Rightarrow> tensor \<Rightarrow> bool" where
  "holds_val s0 s (PyFloat f) u = (u = Num f)"
| "holds_val s0 s (TensorRef a) u = holds s0 s a u"

section \<open>Evaluation on concrete inputs\<close>

lemmas model_defs =
  L1Loss_forward_def L1Loss_key_loss_def PeriodicL1Loss_forward_def PeriodicL1Loss_key_loss_def
  periodic_elementwise_def bind_err_def getitem_def l1_loss_none_def binary_op_def
  broadcastable_def apply_weight_dict_def apply_weight_def apply_area_def reduce_def
  mul_def add_def tsum_def tmean_def numel_def fl_sum_def l1_elem_def slice_to_def slice_from_def
  L1Loss_init_def PeriodicL1Loss_init_def Loss_init_def

lemmas store_defs =
  L1Loss_forward_st_def L1Loss_key_st_def PeriodicL1Loss_forward_st_def PeriodicL1Loss_key_st_def
  st_bind_def st_lift_def new_tensor_def imul_def imul_weight_dict_def imul_weight_def
  imul_area_def reduce_st_def iadd_def

section \<open>Errors and their sources\<close>

lemma bind_err_simps [simp]:
  "bind_err (Inl e) f = Inl e"
  "bind_err (Inr v) f = f v"
  by (simp_all add: bind_err_def)

lemma bind_err_eq_Inr:
  "bind_err m f = Inr v \<longleftrightarrow> (\<exists>u. m = Inr u \<and> f u = Inr v)"
  by (cases m) simp_all

lemma bind_err_eq_Inl:
  "bind_err m f = Inl e \<longleftrightarrow> m = Inl e \<or> (\<exists>u. m = Inr u \<and> f u = Inl e)"
  by (cases m) simp_all

lemma binary_op_error:
  "binary_op f a b = Inl e \<Longrightarrow> e = ValueError BroadcastMismatch"
  by (simp add: binary_op_def split: if_splits)

lemma getitem_error: "getitem d key = Inl e \<Longrightarrow> e = KeyError key"
  by (simp add: getitem_def split: option.splits)

lemma len_error: "len t = Inl e \<Longrightarrow> e = AssertionError"
  by (cases t) simp_all

lemma apply_weight_dict_error:
  "apply_weight_dict wd key loss = Inl e \<Longrightarrow> e = KeyError key \<or> e = ValueError BroadcastMismatch"
  by (auto simp: apply_weight_dict_def mul_def bind_err_eq_Inl split: option.splits
      dest: binary_op_error getitem_error)

lemma apply_weight_error:
  "apply_weight self key loss = Inl e \<Longrightarrow> e = ValueError BroadcastMismatch"
  by (auto simp: apply_weight_def mul_def split: weight_cfg.splits option.splits dest: binary_op_error)

lemma apply_area_error:
  "apply_area od loss = Inl e \<Longrightarrow> e = ValueError BroadcastMismatch"
  by (auto simp: apply_area_def mul_def split: option.splits dest: binary_op_error)

lemma periodic_elementwise_odd:
  "getitem od key = Inr out \<Longrightarrow> len out = Inr n \<Longrightarrow> odd n \<Longrightarrow>
   periodic_elementwise od key = Inl (ValueError (OddLength n key))"
  by (simp add: periodic_elementwise_def odd_iff_mod_2_eq_one)

lemma periodic_elementwise_OddLength:
  "periodic_elementwise od key = Inl (ValueError (OddLength n k)) \<Longrightarrow>
   k = key \<and> (\<exists>out. getitem od key = Inr out \<and> len out = Inr n \<and> odd n)"
  by (auto simp: periodic_elementwise_def bind_err_eq_Inl l1_loss_none_def
      odd_iff_mod_2_eq_one
      split: if_splits dest: getitem_error len_error binary_op_error)

lemma periodic_key_loss_OddLength:
  "PeriodicL1Loss_key_loss self od wd key = Inl (ValueError (OddLength n k)) \<Longrightarrow>
   k = key \<and> (\<exists>out. getitem od key = Inr out \<and> len out = Inr n \<and> odd n)"
  by (auto simp: PeriodicL1Loss_key_loss_def bind_err_eq_Inl
      dest: periodic_elementwise_OddLength apply_weight_dict_error apply_area_error
        apply_weight_error)

lemma periodic_loop_append:
  "PeriodicL1Loss_loop self od wd acc (ks @ ks') =
   bind_err (PeriodicL1Loss_loop self od wd acc ks) (\<lambda>acc'. PeriodicL1Loss_loop self od wd acc' ks')"
  by (induction ks arbitrary: acc) (auto split: sum.splits)

lemma periodic_loop_OddLength:
  "PeriodicL1Loss_loop self od wd acc ks = Inl (ValueError (OddLength n k)) \<Longrightarrow>
   k \<in> set ks \<and> (\<exists>out. getitem od k = Inr out \<and> len out = Inr n \<and> odd n)"
proof (induction ks arbitrary: acc)
  case Nil
  then show ?case by simp
next
  case (Cons key ks)
  show ?case
  proof (cases "PeriodicL1Loss_key_loss self od wd key")
    case (Inl e)
    with Cons.prems have "PeriodicL1Loss_key_loss self od wd key = Inl (ValueError (OddLength n k))"
      by simp
    from periodic_key_loss_OddLength [OF this] show ?thesis by auto
  next
    case (Inr loss)
    show ?thesis
    proof (cases "add acc loss")
      case (Inl e)
      with Inr Cons.prems have "add acc loss = Inl (ValueError (OddLength n k))" by simp
      then show ?thesis by (auto simp: add_def dest: binary_op_error)
    next
      case (Inr acc')
      with \<open>PeriodicL1Loss_key_loss self od wd key = Inr loss\<close> Cons.prems
      have "PeriodicL1Loss_loop self od wd acc' ks = Inl (ValueError (OddLength n k))" by simp
      from Cons.IH [OF this] show ?thesis by auto
    qed
  qed
qed

section \<open>Shapes and elementwise operations\<close>

lemma bshape_same: "bshape s s = Some s"
  by (induction s) simp_all

lemma broadcastable_same_shape: "shape a = shape b \<Longrightarrow> broadcastable a b"
  by (simp add: broadcastable_def bshape_same)

lemma bshape_Nil_right: "bshape s [] = Some s"
  by (cases s) simp_all

lemma broadcastable_Num: "broadcastable t (Num w)"
  by (simp add: broadcastable_def bshape_Nil_right)

lemma rank_shape: "rank t = length (shape t)"
proof (induction t)
  case (Num a) show ?case by simp
next
  case (Arr xs) then show ?case by (cases xs) simp_all
qed

lemma shape_Arr_eq:
  "shape (Arr xs) = shape (Arr ys) \<Longrightarrow>
   length xs = length ys \<and> (xs \<noteq> [] \<longrightarrow> shape (hd xs) = shape (hd ys))"
  by (cases xs; cases ys) simp_all

lemma shape_Arr_ne: "shape (Arr xs) \<noteq> []"
  by (cases xs) simp_all

lemma shape_Num_eq: "shape t = [] \<longleftrightarrow> (\<exists>a. t = Num a)"
proof (cases t)
  case (Num a) then show ?thesis by simp
next
  case (Arr xs) then show ?thesis by (cases xs) simp_all
qed

lemma concat_map2:
  "length xs = length ys \<Longrightarrow>
   (\<And>x y. (x, y) \<in> set (zip xs ys) \<Longrightarrow> length (g x) = length (h y)) \<Longrightarrow>
   concat (map (\<lambda>(x, y). map2 f (g x) (h y)) (zip xs ys)) =
   map2 f (concat (map g xs)) (concat (map h ys))"
proof (induction xs ys rule: list_induct2)
  case Nil
  show ?case by simp
next
  case (Cons x xs y ys)
  then show ?case by simp
qed

lemma wf_Arr_nth:
  "wf_tensor (Arr xs) \<Longrightarrow> i < length xs \<Longrightarrow> wf_tensor (xs ! i) \<and> shape (xs ! i) = shape (hd xs)"
  by simp

lemma same_shape_nth:
  assumes "wf_tensor (Arr xs)" "wf_tensor (Arr ys)" "shape (Arr xs) = shape (Arr ys)"
    and "i < length xs"
  shows "wf_tensor (xs ! i) \<and> wf_tensor (ys ! i) \<and> shape (xs ! i) = shape (ys ! i) \<and>
    length xs = length ys"
proof -
  from assms(3) have len: "length xs = length ys"
    and hd: "xs \<noteq> [] \<longrightarrow> shape (hd xs) = shape (hd ys)"
    using shape_Arr_eq [of xs ys] by blast+
  from assms(4) have "xs \<noteq> []" by auto
  with hd have hd': "shape (hd xs) = shape (hd ys)" by blast
  from assms(4) len have i: "i < length ys" by simp
  from wf_Arr_nth [OF assms(1) assms(4)] wf_Arr_nth [OF assms(2) i] hd' len
  show ?thesis by metis
qed

lemma numel_same_shape:
  "wf_tensor a \<Longrightarrow> wf_tensor b \<Longrightarrow> shape a = shape b \<Longrightarrow>
   length (flatten a) = length (flatten b)"
proof (induction a arbitrary: b)
  case (Num x)
  then obtain y where "b = Num y" using shape_Num_eq [of b] by auto
  then show ?case by simp
next
  case (Arr xs)
  have "shape b \<noteq> []" using Arr.prems(3) shape_Arr_ne [of xs] by metis
  then obtain ys where b: "b = Arr ys" by (cases b) simp_all
  note wfx = Arr.prems(1)
  note wfy = Arr.prems(2) [unfolded b]
  note sh = Arr.prems(3) [unfolded b]
  have len: "length xs = length ys"
    using shape_Arr_eq [OF sh] by blast
  have "map (\<lambda>x. length (flatten x)) xs = map (\<lambda>y. length (flatten y)) ys"
  proof (rule nth_equalityI)
    show "length (map (\<lambda>x. length (flatten x)) xs) = length (map (\<lambda>y. length (flatten y)) ys)"
      using len by simp
  next
    fix i assume "i < length (map (\<lambda>x. length (flatten x)) xs)"
    then have i: "i < length xs" by simp
    then have i': "i < length ys" using len by simp
    from same_shape_nth [OF wfx wfy sh i]
    have "wf_tensor (xs ! i)" "wf_tensor (ys ! i)" "shape (xs ! i) = shape (ys ! i)"
      by blast+
    moreover have "xs ! i \<in> set xs" using i by simp
    ultimately have "length (flatten (xs ! i)) = length (flatten (ys ! i))"
      by (rule Arr.IH [rotated])
    then show "map (\<lambda>x. length (flatten x)) xs ! i = map (\<lambda>y. length (flatten y)) ys ! i"
      using i i' by simp
  qed
  then have "sum_list (map (\<lambda>x. length (flatten x)) xs) = sum_list (map (\<lambda>y. length (flatten y)) ys)"
    by simp
  then show ?case unfolding b by (simp add: length_concat o_def)
qed


lemma bop_Arr_same_length:
  "rank (Arr xs) = rank (Arr ys) \<Longrightarrow> length xs = length ys \<Longrightarrow>
   bop f (Arr xs) (Arr ys) = Arr (map (\<lambda>(x, y). bop f x y) (zip xs ys))"
  by simp

lemma bop_same_shape:
  "wf_tensor a \<Longrightarrow> wf_tensor b \<Longrightarrow> shape a = shape b \<Longrightarrow>
   flatten (bop f a b) = map2 f (flatten a) (flatten b)"
proof (induction a arbitrary: b)
  case (Num x)
  then obtain y where "b = Num y" using shape_Num_eq [of b] by auto
  then show ?case by simp
next
  case (Arr xs)
  have "shape b \<noteq> []" using Arr.prems(3) shape_Arr_ne [of xs] by metis
  then obtain ys where b: "b = Arr ys" by (cases b) simp_all
  note wfx = Arr.prems(1)
  note wfy = Arr.prems(2) [unfolded b]
  note sh = Arr.prems(3) [unfolded b]
  have len: "length xs = length ys"
    using shape_Arr_eq [OF sh] by blast
  have pair: "wf_tensor x \<and> wf_tensor y \<and> shape x = shape y \<and> x \<in> set xs"
    if "(x, y) \<in> set (zip xs ys)" for x y
  proof -
    from that obtain i where i: "i < length xs" "x = xs ! i" "y = ys ! i"
      by (auto simp: set_zip)
    from same_shape_nth [OF wfx wfy sh i(1)] i show ?thesis by simp
  qed
  have rk: "rank (Arr xs) = rank (Arr ys)"
    using sh by (simp only: rank_shape)
  have "flatten (bop f (Arr xs) (Arr ys)) =
      concat (map (\<lambda>(x, y). flatten (bop f x y)) (zip xs ys))"
    by (simp only: bop_Arr_same_length [OF rk len] flatten.simps map_map o_def case_prod_unfold)
  also have "map (\<lambda>(x, y). flatten (bop f x y)) (zip xs ys) =
      map (\<lambda>(x, y). map2 f (flatten x) (flatten y)) (zip xs ys)"
  proof (rule map_cong [OF refl], clarify)
    fix x y assume "(x, y) \<in> set (zip xs ys)"
    from pair [OF this] show "flatten (bop f x y) = map2 f (flatten x) (flatten y)"
      using Arr.IH [of x y] by blast
  qed
  also have "concat (map (\<lambda>(x, y). map2 f (flatten x) (flatten y)) (zip xs ys)) =
      map2 f (concat (map flatten xs)) (concat (map flatten ys))"
  proof (rule concat_map2 [OF len])
    fix x y assume "(x, y) \<in> set (zip xs ys)"
    from pair [OF this] show "length (flatten x) = length (flatten y)"
      using numel_same_shape [of x y] by blast
  qed
  finally show ?case unfolding b by simp
qed


lemma shape_Arr:
  "shape (Arr xs) = (if xs = [] then [0] else length xs # shape (hd xs))"
  by (cases xs) simp_all

lemma wf_Arr_sublist:
  assumes wf: "wf_tensor (Arr xs)" and sub: "set ys \<subseteq> set xs"
  shows "wf_tensor (Arr ys)"
proof -
  have "wf_tensor y \<and> shape y = shape (hd ys)" if "y \<in> set ys" for y
  proof -
    from that have "ys \<noteq> []" by auto
    then have "hd ys \<in> set xs" using sub by auto
    moreover have "y \<in> set xs" using that sub by auto
    ultimately show ?thesis using wf by simp
  qed
  then show ?thesis by simp
qed

lemma wf_Arr_take: "wf_tensor (Arr xs) \<Longrightarrow> wf_tensor (Arr (take n xs))"
  by (erule wf_Arr_sublist) (rule set_take_subset)

lemma wf_Arr_drop: "wf_tensor (Arr xs) \<Longrightarrow> wf_tensor (Arr (drop n xs))"
  by (erule wf_Arr_sublist) (rule set_drop_subset)

lemma shape_halves:
  assumes wf: "wf_tensor (Arr xs)" and len: "length xs = 2 * n"
  shows "shape (Arr (take n xs)) = shape (Arr (drop n xs))"
proof (cases "n = 0")
  case True
  with len show ?thesis by simp
next
  case False
  with len have ne: "take n xs \<noteq> []" "drop n xs \<noteq> []" "xs \<noteq> []" by auto
  have "hd (take n xs) = hd xs" using False ne by (cases xs; cases n) simp_all
  moreover have "hd (drop n xs) \<in> set xs" using ne(2) by (meson in_set_dropD hd_in_set)
  then have "shape (hd (drop n xs)) = shape (hd xs)" using wf by simp
  ultimately show ?thesis using ne len by (simp add: shape_Arr)
qed

lemma l1_loss_none_halves:
  assumes wf: "wf_tensor (Arr xs)" and len: "length xs = 2 * n"
  shows "l1_loss_none (Arr (take n xs)) (Arr (drop n xs)) =
     Inr (Arr (map (\<lambda>(x, y). bop l1_elem x y) (zip (take n xs) (drop n xs))))"
proof -
  note sh = shape_halves [OF wf len]
  have rk: "rank (Arr (take n xs)) = rank (Arr (drop n xs))"
    using sh by (simp only: rank_shape)
  have ln: "length (take n xs) = length (drop n xs)" using len by simp
  show ?thesis
    unfolding l1_loss_none_def binary_op_def
    using broadcastable_same_shape [OF sh]
    by (simp only: if_True bop_Arr_same_length [OF rk ln])
qed

section \<open>Scaling by a constant\<close>

lemma bop_Num_right: "bop f t (Num b) = tmap (\<lambda>x. f x b) t"
  by (induction t) simp_all

lemma mul_Num: "mul t (Num w) = Inr (scale w t)"
  by (simp add: mul_def binary_op_def broadcastable_Num bop_Num_right scale_def)

lemma flatten_tmap: "flatten (tmap g t) = map g (flatten t)"
  by (induction t) (simp_all add: map_concat o_def cong: map_cong)

lemma shape_tmap: "shape (tmap g t) = shape t"
proof (induction t)
  case (Num a)
  show ?case by simp
next
  case (Arr xs)
  then show ?case by (cases xs) simp_all
qed

lemma rank_tmap: "rank (tmap g t) = rank t"
  by (simp add: rank_shape shape_tmap)

lemma broadcastable_tmap: "broadcastable (tmap g a) b = broadcastable a b"
  by (simp add: broadcastable_def shape_tmap)

lemma hd_map_tmap: "xs \<noteq> [] \<Longrightarrow> hd (map (tmap g) xs) = tmap g (hd xs)"
  by (simp add: hd_map)

lemma bop_tmap_left:
  "\<forall>x y. f (g x) y = g (f x y) \<Longrightarrow> bop f (tmap g a) b = tmap g (bop f a b)"
proof (induction f a b rule: bop.induct)
  case (1 f a b)
  then show ?case by simp
next
  case (2 f a ys)
  then show ?case by simp
next
  case (3 f xs b)
  then show ?case by simp
next
  case (4 f xs ys)
  note comm = "4.prems"
  have rk: "rank (Arr (map (tmap g) xs)) = rank (Arr xs)"
    using rank_tmap [of g "Arr xs"] by simp
  consider (lt) "rank (Arr xs) < rank (Arr ys)"
    | (gt) "\<not> rank (Arr xs) < rank (Arr ys)" "rank (Arr ys) < rank (Arr xs)"
    | (eq) "\<not> rank (Arr xs) < rank (Arr ys)" "\<not> rank (Arr ys) < rank (Arr xs)"
        "length xs = length ys"
    | (one_l) "\<not> rank (Arr xs) < rank (Arr ys)" "\<not> rank (Arr ys) < rank (Arr xs)"
        "length xs \<noteq> length ys" "length xs = 1"
    | (one_r) "\<not> rank (Arr xs) < rank (Arr ys)" "\<not> rank (Arr ys) < rank (Arr xs)"
        "length xs \<noteq> length ys" "length xs \<noteq> 1" "length ys = 1"
    | (none) "\<not> rank (Arr xs) < rank (Arr ys)" "\<not> rank (Arr ys) < rank (Arr xs)"
        "length xs \<noteq> length ys" "length xs \<noteq> 1" "length ys \<noteq> 1"
    by blast
  then show ?case
  proof cases
    case lt
    from "4.IH"(1) [OF lt] comm have "\<And>y. y \<in> set ys \<Longrightarrow>
        bop f (tmap g (Arr xs)) y = tmap g (bop f (Arr xs) y)" by simp
    then have "map (\<lambda>y. bop f (Arr (map (tmap g) xs)) y) ys =
        map (\<lambda>y. tmap g (bop f (Arr xs) y)) ys" by simp
    with lt rk show ?thesis
      by (simp only: tmap.simps bop.simps if_True map_map o_def)
  next
    case gt
    from "4.IH"(2) [OF gt] comm have "\<And>x. x \<in> set xs \<Longrightarrow>
        bop f (tmap g x) (Arr ys) = tmap g (bop f x (Arr ys))" by simp
    then have "map (\<lambda>x. bop f (tmap g x) (Arr ys)) xs =
        map (\<lambda>x. tmap g (bop f x (Arr ys))) xs" by simp
    with gt rk show ?thesis
      by (simp only: tmap.simps bop.simps if_True if_False map_map o_def)
  next
    case eq
    have "\<And>x y. (x, y) \<in> set (zip xs ys) \<Longrightarrow> bop f (tmap g x) y = tmap g (bop f x y)"
      using "4.IH"(3) [OF eq] comm by simp
    then have "map (\<lambda>(x, y). bop f (tmap g x) y) (zip xs ys) =
        map (\<lambda>(x, y). tmap g (bop f x y)) (zip xs ys)" by auto
    moreover have "zip (map (tmap g) xs) ys = map (\<lambda>(x, y). (tmap g x, y)) (zip xs ys)"
      by (simp add: zip_map1)
    ultimately show ?thesis using eq rk
      by (simp add: o_def case_prod_unfold)
  next
    case one_l
    then have ne: "xs \<noteq> []" by auto
    have "\<And>y. y \<in> set ys \<Longrightarrow> bop f (tmap g (hd xs)) y = tmap g (bop f (hd xs) y)"
      using "4.IH"(4) [OF one_l] comm by simp
    then have "map (\<lambda>y. bop f (tmap g (hd xs)) y) ys = map (\<lambda>y. tmap g (bop f (hd xs) y)) ys"
      by simp
    then show ?thesis using one_l rk ne by (simp add: o_def hd_map)
  next
    case one_r
    have "\<And>x. x \<in> set xs \<Longrightarrow> bop f (tmap g x) (hd ys) = tmap g (bop f x (hd ys))"
      using "4.IH"(5) [OF one_r] comm by simp
    then have "map (\<lambda>x. bop f (tmap g x) (hd ys)) xs = map (\<lambda>x. tmap g (bop f x (hd ys))) xs"
      by simp
    then show ?thesis using one_r rk by (simp add: o_def)
  next
    case none
    then show ?thesis using rk by simp
  qed
qed


lemma fl_mul_swap: "fl_mul (fl_mul x w) y = fl_mul (fl_mul x y) w"
  by (cases x; cases w; cases y) simp_all

lemma fl_add_mul_distrib:
  "fl_add (fl_mul a (Fin w)) (fl_mul x (Fin w)) = fl_mul (fl_add a x) (Fin w)"
  by (cases a; cases x) (simp_all add: distrib_right)

lemma foldl_fl_add_scale:
  "foldl fl_add (fl_mul a (Fin w)) (map (\<lambda>x. fl_mul x (Fin w)) xs) =
   fl_mul (foldl fl_add a xs) (Fin w)"
  by (induction xs arbitrary: a) (simp_all add: fl_add_mul_distrib)

lemma fl_sum_scale:
  "fl_sum (map (\<lambda>x. fl_mul x (Fin w)) xs) = fl_mul (fl_sum xs) (Fin w)"
  using foldl_fl_add_scale [of "Fin 0" w xs] by (simp add: fl_sum_def)

lemma fl_div_count_scale:
  "fl_div_count (fl_mul s (Fin w)) n = fl_mul (fl_div_count s n) (Fin w)"
  by (cases s) simp_all

lemma numel_scale: "numel (scale w t) = numel t"
  by (simp add: numel_def scale_def flatten_tmap)

lemma reduce_scale_Fin: "reduce self (scale (Fin w) t) = scale (Fin w) (reduce self t)"
  by (simp add: reduce_def tsum_def tmean_def numel_scale)
     (simp add: scale_def flatten_tmap fl_sum_scale fl_div_count_scale)

lemma fl_mul_NaN [simp]: "fl_mul x NaN = NaN"
  by (cases x) simp_all

lemma scale_scale_NaN: "scale NaN (scale NaN t) = scale NaN t"
  by (induction t) (simp_all add: scale_def)

lemma scale_NaN_Num: "scale NaN (Num a) = Num NaN"
  by (simp add: scale_def)

lemma scale_reduce_scale: "scale w (reduce self (scale w t)) = scale w (scale w (reduce self t))"
proof (cases w)
  case (Fin r)
  then show ?thesis by (simp add: reduce_scale_Fin)
next
  case NaN
  then show ?thesis
    by (simp add: reduce_def tsum_def tmean_def scale_NaN_Num scale_scale_NaN)
qed

lemma mul_scale_left: "mul (scale w t) a = bind_err (mul t a) (\<lambda>l. Inr (scale w l))"
  by (simp add: mul_def binary_op_def scale_def broadcastable_tmap bop_tmap_left fl_mul_swap)

lemma apply_area_scale:
  "apply_area od (scale w t) = bind_err (apply_area od t) (\<lambda>l. Inr (scale w l))"
  by (simp add: apply_area_def mul_scale_left split: option.splits)

lemma apply_weight_scale:
  "weight self = FloatWeight w \<or> (\<exists>d. weight self = DictWeight d \<and> map_of d key = Some w) \<Longrightarrow>
   apply_weight self key loss = Inr (scale w loss)"
  by (auto simp: apply_weight_def mul_Num)

lemma apply_weight_NoWeight: "apply_weight (self\<lparr>weight := NoWeight\<rparr>) key loss = Inr loss"
  by (simp add: apply_weight_def)

lemma reduce_weight_update: "reduce (self\<lparr>weight := w\<rparr>) loss = reduce self loss"
  by (simp add: reduce_def)

lemma bind_err_assoc:
  "bind_err (bind_err m f) g = bind_err m (\<lambda>x. bind_err (f x) g)"
  by (cases m) simp_all

lemma L1Loss_key_loss_weight_twice:
  assumes w: "weight self = FloatWeight w \<or>
    (\<exists>d. weight self = DictWeight d \<and> map_of d key = Some w)"
  shows "L1Loss_key_loss self od ld wd key =
     bind_err (L1Loss_key_loss (self\<lparr>weight := NoWeight\<rparr>) od ld wd key)
       (\<lambda>loss. Inr (scale w (scale w loss)))"
  unfolding L1Loss_key_loss_def
  by (simp add: apply_weight_scale [OF w] apply_weight_NoWeight reduce_weight_update
      apply_area_scale bind_err_assoc scale_reduce_scale)

lemma PeriodicL1Loss_key_loss_weight_once:
  assumes w: "weight self = FloatWeight w \<or>
    (\<exists>d. weight self = DictWeight d \<and> map_of d key = Some w)"
  shows "PeriodicL1Loss_key_loss self od wd key =
     bind_err (PeriodicL1Loss_key_loss (self\<lparr>weight := NoWeight\<rparr>) od wd key)
       (\<lambda>loss. Inr (scale w loss))"
  unfolding PeriodicL1Loss_key_loss_def
  by (simp add: apply_weight_scale [OF w] apply_weight_NoWeight reduce_weight_update
      bind_err_assoc)


section \<open>Operations on tensors of one shape\<close>

lemma bop_same_shape_wf:
  "wf_tensor a \<Longrightarrow> wf_tensor b \<Longrightarrow> shape a = shape b \<Longrightarrow>
   wf_tensor (bop f a b) \<and> shape (bop f a b) = shape a"
proof (induction a arbitrary: b)
  case (Num x)
  then obtain y where "b = Num y" using shape_Num_eq [of b] by auto
  then show ?case by simp
next
  case (Arr xs)
  have "shape b \<noteq> []" using Arr.prems(3) shape_Arr_ne [of xs] by metis
  then obtain ys where b: "b = Arr ys" by (cases b) simp_all
  note wfx = Arr.prems(1)
  note wfy = Arr.prems(2) [unfolded b]
  note sh = Arr.prems(3) [unfolded b]
  have len: "length xs = length ys"
    using shape_Arr_eq [OF sh] by blast
  have rk: "rank (Arr xs) = rank (Arr ys)"
    using sh by (simp only: rank_shape)
  define zs where "zs = map (\<lambda>(x, y). bop f x y) (zip xs ys)"
  have bop: "bop f (Arr xs) (Arr ys) = Arr zs"
    by (simp only: bop_Arr_same_length [OF rk len] zs_def)
  have lz: "length zs = length xs" using len by (simp add: zs_def)
  have nth: "wf_tensor (zs ! i) \<and> shape (zs ! i) = shape (xs ! i)" if i: "i < length xs" for i
  proof -
    from same_shape_nth [OF wfx wfy sh i]
    have "wf_tensor (xs ! i)" "wf_tensor (ys ! i)" "shape (xs ! i) = shape (ys ! i)"
      by blast+
    moreover have "xs ! i \<in> set xs" using i by simp
    ultimately have "wf_tensor (bop f (xs ! i) (ys ! i)) \<and>
        shape (bop f (xs ! i) (ys ! i)) = shape (xs ! i)"
      by (rule Arr.IH [rotated])
    moreover have "zs ! i = bop f (xs ! i) (ys ! i)" using i len by (simp add: zs_def)
    ultimately show ?thesis by simp
  qed
  have shape_all: "wf_tensor z \<and> shape z = shape (hd xs)" if "z \<in> set zs" for z
  proof -
    from that obtain i where i: "i < length zs" "z = zs ! i" by (auto simp: in_set_conv_nth)
    with lz have ix: "i < length xs" by simp
    from nth [OF ix] wf_Arr_nth [OF wfx ix] i show ?thesis by simp
  qed
  have "wf_tensor (Arr zs)"
  proof -
    have "wf_tensor z \<and> shape z = shape (hd zs)" if z: "z \<in> set zs" for z
    proof -
      from z have "zs \<noteq> []" by auto
      then have "hd zs \<in> set zs" by simp
      from shape_all [OF this] shape_all [OF z] show ?thesis by simp
    qed
    then show ?thesis by simp
  qed
  moreover have "shape (Arr zs) = shape (Arr xs)"
  proof (cases "xs = []")
    case True
    then show ?thesis using lz by simp
  next
    case False
    then have "zs \<noteq> []" using lz by auto
    then have "hd zs \<in> set zs" by simp
    from shape_all [OF this] False \<open>zs \<noteq> []\<close> lz show ?thesis by (simp add: shape_Arr)
  qed
  ultimately show ?case unfolding b bop by simp
qed

lemma binary_op_same_shape:
  assumes "wf_tensor a" "wf_tensor b" "shape a = shape b"
  shows "\<exists>c. binary_op f a b = Inr c \<and> wf_tensor c \<and> shape c = shape a \<and>
     flatten c = map2 f (flatten a) (flatten b)"
  using bop_same_shape_wf [OF assms] bop_same_shape [OF assms]
    broadcastable_same_shape [OF assms(3)]
  by (simp add: binary_op_def)

lemma mul_same_shape:
  assumes "wf_tensor a" "wf_tensor b" "shape a = shape b"
  shows "\<exists>c. mul a b = Inr c \<and> wf_tensor c \<and> shape c = shape a \<and>
     flatten c = map2 fl_mul (flatten a) (flatten b)"
  using binary_op_same_shape [OF assms] by (simp add: mul_def)

lemma l1_loss_none_same_shape:
  assumes "wf_tensor a" "wf_tensor b" "shape a = shape b"
  shows "\<exists>c. l1_loss_none a b = Inr c \<and> wf_tensor c \<and> shape c = shape a \<and>
     flatten c = map2 l1_elem (flatten a) (flatten b)"
  using binary_op_same_shape [OF assms] by (simp add: l1_loss_none_def)

section \<open>The accumulation loop\<close>

lemma add_Num: "add (Num a) (Num c) = Inr (Num (fl_add a c))"
  by (simp add: add_def binary_op_def broadcastable_Num)

lemma reduce_scalar:
  "reduction self = ''mean'' \<or> reduction self = ''sum'' \<Longrightarrow> \<exists>r. reduce self loss = Num r"
  by (auto simp: reduce_def tsum_def tmean_def)

lemma apply_weight_Num: "\<exists>c. apply_weight self key (Num r) = Inr (Num c)"
  by (simp add: apply_weight_def mul_Num scale_def split: weight_cfg.splits option.splits)

lemma L1Loss_key_loss_scalar:
  assumes red: "reduction self = ''mean'' \<or> reduction self = ''sum''"
    and kl: "L1Loss_key_loss self od ld wd key = Inr loss"
  shows "\<exists>c. loss = Num c"
proof -
  from kl obtain l where "apply_weight self key (reduce self l) = Inr loss"
    by (auto simp: L1Loss_key_loss_def bind_err_eq_Inr)
  with reduce_scalar [OF red, of l] apply_weight_Num [of self key] show ?thesis
    by (metis Inr_inject)
qed

lemma PeriodicL1Loss_key_loss_scalar:
  assumes red: "reduction self = ''mean'' \<or> reduction self = ''sum''"
    and kl: "PeriodicL1Loss_key_loss self od wd key = Inr loss"
  shows "\<exists>c. loss = Num c"
proof -
  from kl obtain l where "apply_weight self key (reduce self l) = Inr loss"
    by (auto simp: PeriodicL1Loss_key_loss_def bind_err_eq_Inr)
  with reduce_scalar [OF red, of l] apply_weight_Num [of self key] show ?thesis
    by (metis Inr_inject)
qed

lemma L1Loss_loop_sum:
  assumes red: "reduction self = ''mean'' \<or> reduction self = ''sum''"
  shows "L1Loss_loop self od ld wd (Num a) ks = Inr v \<longleftrightarrow>
     (\<exists>cs. list_all2 (\<lambda>k c. L1Loss_key_loss self od ld wd k = Inr (Num c)) ks cs \<and>
        v = Num (foldl fl_add a cs))"
proof (induction ks arbitrary: a)
  case Nil
  show ?case by auto
next
  case (Cons key ks)
  show ?case
  proof (cases "L1Loss_key_loss self od ld wd key")
    case (Inl e)
    then show ?thesis by (simp add: list_all2_Cons1)
  next
    case (Inr loss)
    from L1Loss_key_loss_scalar [OF red Inr] obtain c where c: "loss = Num c" ..
    have "L1Loss_loop self od ld wd (Num a) (key # ks) =
        L1Loss_loop self od ld wd (Num (fl_add a c)) ks"
      using Inr c by (simp add: add_Num)
    then show ?thesis using Cons.IH [of "fl_add a c"] Inr c
      by (auto simp: list_all2_Cons1)
  qed
qed

lemma PeriodicL1Loss_loop_sum:
  assumes red: "reduction self = ''mean'' \<or> reduction self = ''sum''"
  shows "PeriodicL1Loss_loop self od wd (Num a) ks = Inr v \<longleftrightarrow>
     (\<exists>cs. list_all2 (\<lambda>k c. PeriodicL1Loss_key_loss self od wd k = Inr (Num c)) ks cs \<and>
        v = Num (foldl fl_add a cs))"
proof (induction ks arbitrary: a)
  case Nil
  show ?case by auto
next
  case (Cons key ks)
  show ?case
  proof (cases "PeriodicL1Loss_key_loss self od wd key")
    case (Inl e)
    then show ?thesis by (simp add: list_all2_Cons1)
  next
    case (Inr loss)
    from PeriodicL1Loss_key_loss_scalar [OF red Inr] obtain c where c: "loss = Num c" ..
    have "PeriodicL1Loss_loop self od wd (Num a) (key # ks) =
        PeriodicL1Loss_loop self od wd (Num (fl_add a c)) ks"
      using Inr c by (simp add: add_Num)
    then show ?thesis using Cons.IH [of "fl_add a c"] Inr c
      by (auto simp: list_all2_Cons1)
  qed
qed

lemma L1Loss_key_loss_cong:
  "map_of od' key = map_of od key \<Longrightarrow> map_of od' ''area'' = map_of od ''area'' \<Longrightarrow>
   L1Loss_key_loss self od' ld wd key = L1Loss_key_loss self od ld wd key"
  by (simp add: L1Loss_key_loss_def getitem_def apply_area_def)

lemma PeriodicL1Loss_key_loss_cong:
  "map_of od' key = map_of od key \<Longrightarrow> map_of od' ''area'' = map_of od ''area'' \<Longrightarrow>
   PeriodicL1Loss_key_loss self od' wd key = PeriodicL1Loss_key_loss self od wd key"
  by (simp add: PeriodicL1Loss_key_loss_def periodic_elementwise_def getitem_def apply_area_def)

lemma L1Loss_loop_cong:
  "(\<And>k. k \<in> set ks \<Longrightarrow>
      L1Loss_key_loss self od' ld wd k = L1Loss_key_loss self od ld wd k) \<Longrightarrow>
   L1Loss_loop self od' ld wd acc ks = L1Loss_loop self od ld wd acc ks"
  by (induction ks arbitrary: acc) (simp_all split: sum.splits)

lemma PeriodicL1Loss_loop_cong:
  "(\<And>k. k \<in> set ks \<Longrightarrow>
      PeriodicL1Loss_key_loss self od' wd k = PeriodicL1Loss_key_loss self od wd k) \<Longrightarrow>
   PeriodicL1Loss_loop self od' wd acc ks = PeriodicL1Loss_loop self od wd acc ks"
  by (induction ks arbitrary: acc) (simp_all split: sum.splits)

section \<open>Statements write fresh objects only\<close>

lemma frame_refl: "frame s s"
  by (auto simp: frame_def intro: exI [of _ "[]"])

lemma frame_alloc: "frame s0 s \<Longrightarrow> frame s0 (s\<lparr>heap := heap s @ [v]\<rparr>) \<and> fresh s0 (length (heap s))"
  by (auto simp: frame_def fresh_def)

lemma frame_update:
  "frame s0 s \<Longrightarrow> fresh s0 a \<Longrightarrow> frame s0 (s\<lparr>heap := (heap s)[a := v]\<rparr>)"
  by (auto simp: frame_def fresh_def list_update_append)

lemma keeps_frameI:
  "(\<And>s r s'. frame s0 s \<Longrightarrow> m s = (r, s') \<Longrightarrow> frame s0 s' \<and> (\<forall>v. r = Inr v \<longrightarrow> P v)) \<Longrightarrow>
   keeps_frame s0 P m"
  unfolding keeps_frame_def by blast

lemma keeps_frameD:
  "keeps_frame s0 P m \<Longrightarrow> frame s0 s \<Longrightarrow> m s = (r, s') \<Longrightarrow>
   frame s0 s' \<and> (\<forall>v. r = Inr v \<longrightarrow> P v)"
  unfolding keeps_frame_def by blast

lemma keeps_frame_bind:
  assumes m: "keeps_frame s0 P m" and f: "\<And>v. P v \<Longrightarrow> keeps_frame s0 Q (f v)"
  shows "keeps_frame s0 Q (st_bind m f)"
proof (rule keeps_frameI)
  fix s r s'
  assume fr: "frame s0 s" and run: "st_bind m f s = (r, s')"
  obtain r1 s1 where m1: "m s = (r1, s1)" by (cases "m s")
  from keeps_frameD [OF m fr m1] have fr1: "frame s0 s1" and p: "\<forall>v. r1 = Inr v \<longrightarrow> P v"
    by blast+
  show "frame s0 s' \<and> (\<forall>v. r = Inr v \<longrightarrow> Q v)"
  proof (cases r1)
    case (Inl e)
    with run m1 fr1 show ?thesis by (auto simp: st_bind_def)
  next
    case (Inr v)
    with run m1 have "f v s1 = (r, s')" by (simp add: st_bind_def)
    from keeps_frameD [OF f fr1 this] p Inr show ?thesis by blast
  qed
qed

lemma keeps_frame_lift: "keeps_frame s0 (\<lambda>v. True) (\<lambda>s. st_lift (g s) s)"
  by (rule keeps_frameI) (simp add: st_lift_def)

lemma keeps_frame_new_tensor: "keeps_frame s0 (fresh s0) (\<lambda>s. new_tensor (g s) s)"
  by (rule keeps_frameI) (auto simp: new_tensor_def split: sum.splits dest: frame_alloc)

lemma imul_frame:
  "fresh s0 loss \<Longrightarrow> frame s0 s \<Longrightarrow> imul loss x s = (r, s') \<Longrightarrow>
   frame s0 s' \<and> (\<forall>v. r = Inr v \<longrightarrow> fresh s0 v)"
  by (auto simp: imul_def split: sum.splits intro: frame_update)

lemma keeps_frame_imul_weight_dict:
  "fresh s0 loss \<Longrightarrow> keeps_frame s0 (fresh s0) (imul_weight_dict key loss)"
  by (rule keeps_frameI)
    (auto simp: imul_weight_dict_def split: option.splits sum.splits dest: imul_frame)

lemma keeps_frame_imul_weight:
  "fresh s0 loss \<Longrightarrow> keeps_frame s0 (fresh s0) (imul_weight key loss)"
  by (rule keeps_frameI)
    (auto simp: imul_weight_def split: weight_cfg.splits option.splits dest: imul_frame)

lemma keeps_frame_imul_area:
  "fresh s0 loss \<Longrightarrow> keeps_frame s0 (fresh s0) (imul_area loss)"
  by (rule keeps_frameI)
    (auto simp: imul_area_def split: option.splits dest: imul_frame)

lemma keeps_frame_reduce_st:
  "fresh s0 loss \<Longrightarrow> keeps_frame s0 (fresh s0) (reduce_st loss)"
  by (rule keeps_frameI)
    (auto simp: reduce_st_def new_tensor_def split: if_splits dest: frame_alloc)

lemma keeps_frame_iadd:
  "fresh_val s0 losses \<Longrightarrow> keeps_frame s0 (fresh_val s0) (iadd losses loss)"
  by (rule keeps_frameI)
    (auto simp: iadd_def split: pyval.splits sum.splits dest: frame_alloc intro: frame_update)

lemma keeps_frame_L1Loss_key_st: "keeps_frame s0 (fresh s0) (L1Loss_key_st key)"
  unfolding L1Loss_key_st_def
  by (intro keeps_frame_bind [OF keeps_frame_lift] keeps_frame_bind [OF keeps_frame_new_tensor]
      keeps_frame_bind [OF keeps_frame_imul_weight_dict]
      keeps_frame_bind [OF keeps_frame_imul_weight]
      keeps_frame_bind [OF keeps_frame_imul_area]
      keeps_frame_bind [OF keeps_frame_reduce_st] keeps_frame_imul_weight)

lemma keeps_frame_odd_check:
  "keeps_frame s0 (fresh s0)
     (\<lambda>s. if c then (Inl e, s) else new_tensor (g s) s)"
  by (rule keeps_frameI) (auto simp: new_tensor_def split: sum.splits if_splits dest: frame_alloc)

lemma keeps_frame_PeriodicL1Loss_key_st: "keeps_frame s0 (fresh s0) (PeriodicL1Loss_key_st key)"
  unfolding PeriodicL1Loss_key_st_def
  by (intro keeps_frame_bind [OF keeps_frame_lift] keeps_frame_bind [OF keeps_frame_odd_check]
      keeps_frame_bind [OF keeps_frame_imul_weight_dict]
      keeps_frame_bind [OF keeps_frame_imul_area]
      keeps_frame_bind [OF keeps_frame_reduce_st] keeps_frame_imul_weight)

lemma keeps_frame_L1Loss_loop_st:
  "fresh_val s0 losses \<Longrightarrow> keeps_frame s0 (fresh_val s0) (L1Loss_loop_st losses keys)"
proof (induction keys arbitrary: losses)
  case Nil
  then show ?case by (auto intro!: keeps_frameI simp: st_lift_def)
next
  case (Cons key keys)
  show ?case
    unfolding L1Loss_loop_st.simps
    by (intro keeps_frame_bind [OF keeps_frame_L1Loss_key_st]
        keeps_frame_bind [OF keeps_frame_iadd [OF Cons.prems]] Cons.IH)
qed

lemma keeps_frame_PeriodicL1Loss_loop_st:
  "fresh_val s0 losses \<Longrightarrow> keeps_frame s0 (fresh_val s0) (PeriodicL1Loss_loop_st losses keys)"
proof (induction keys arbitrary: losses)
  case Nil
  then show ?case by (auto intro!: keeps_frameI simp: st_lift_def)
next
  case (Cons key keys)
  show ?case
    unfolding PeriodicL1Loss_loop_st.simps
    by (intro keeps_frame_bind [OF keeps_frame_PeriodicL1Loss_key_st]
        keeps_frame_bind [OF keeps_frame_iadd [OF Cons.prems]] Cons.IH)
qed

lemma frame_unchanged:
  "frame s s' \<Longrightarrow>
   self_obj s' = self_obj s \<and> output_refs s' = output_refs s \<and> label_refs s' = label_refs s \<and>
   weight_refs s' = weight_refs s \<and> take (length (heap s)) (heap s') = heap s"
  by (auto simp: frame_def)

section \<open>The store model computes the value-level functions\<close>

lemma post_simps [simp]:
  "post (Inl e) p R \<longleftrightarrow> p = Inl e"
  "post (Inr v) p R \<longleftrightarrow> (\<exists>u. p = Inr u \<and> R v u)"
  by (simp_all add: post_def)

lemma post_refl: "post r r (\<lambda>v u. v = u)"
  by (cases r) simp_all

lemma simI:
  "(\<And>s r s'. frame s0 s \<Longrightarrow> Pre s \<Longrightarrow> m s = (r, s') \<Longrightarrow> frame s0 s' \<and> post r p (R s')) \<Longrightarrow>
   sim s0 Pre m R p"
  unfolding sim_def by blast

lemma simD:
  "sim s0 Pre m R p \<Longrightarrow> frame s0 s \<Longrightarrow> Pre s \<Longrightarrow> m s = (r, s') \<Longrightarrow>
   frame s0 s' \<and> post r p (R s')"
  unfolding sim_def by blast

lemma sim_bind:
  assumes m: "sim s0 Pre m R p" and f: "\<And>v u. sim s0 (\<lambda>s. R s v u) (f v) Q (g u)"
  shows "sim s0 Pre (st_bind m f) Q (bind_err p g)"
proof (rule simI)
  fix s r s'
  assume fr: "frame s0 s" and pre: "Pre s" and run: "st_bind m f s = (r, s')"
  obtain r1 s1 where m1: "m s = (r1, s1)" by (cases "m s")
  note d = simD [OF m fr pre m1]
  show "frame s0 s' \<and> post r (bind_err p g) (Q s')"
  proof (cases r1)
    case (Inl e)
    with run m1 d show ?thesis by (auto simp: st_bind_def)
  next
    case (Inr v)
    with d obtain u where u: "p = Inr u" "R s1 v u" and fr1: "frame s0 s1" by auto
    from run m1 Inr have "f v s1 = (r, s')" by (simp add: st_bind_def)
    from simD [OF f fr1 u(2) this] u(1) show ?thesis by simp
  qed
qed

lemma sim_pre_const: "(C \<Longrightarrow> sim s0 (\<lambda>s. True) m R p) \<Longrightarrow> sim s0 (\<lambda>s. C) m R p"
  unfolding sim_def by blast

lemma frame_nth: "frame s0 s \<Longrightarrow> a < length (heap s0) \<Longrightarrow> heap s ! a = heap s0 ! a"
  by (auto simp: frame_def nth_append)

lemma frame_fields:
  "frame s0 s \<Longrightarrow> self_obj s = self_obj s0 \<and> output_refs s = output_refs s0 \<and>
     label_refs s = label_refs s0 \<and> weight_refs s = weight_refs s0"
  by (auto simp: frame_def)

lemma map_of_deref: "map_of (deref h d) key = map_option (\<lambda>a. h ! a) (map_of d key)"
  by (induction d) (auto simp: deref_def)

lemma map_of_valid:
  "list_all (\<lambda>(key, a). a < n) d \<Longrightarrow> map_of d key = Some a \<Longrightarrow> a < n"
  by (induction d) (auto split: if_splits)

lemma sim_getitem:
  assumes "list_all (\<lambda>(key, a). a < length (heap s0)) d"
  shows "sim s0 (\<lambda>s. True) (\<lambda>s. st_lift (getitem d key) s) (\<lambda>s. input_ref s0)
     (getitem (deref (heap s0) d) key)"
  by (rule simI)
    (auto simp: st_lift_def getitem_def map_of_deref input_ref_def
      split: option.splits dest: map_of_valid [OF assms])

lemma sim_new_tensor:
  "sim s0 (\<lambda>s. True) (\<lambda>s. new_tensor p s) (holds s0) p"
  by (rule simI)
    (auto simp: new_tensor_def holds_def frame_def split: sum.splits)

lemma sim_imul:
  "sim s0 (\<lambda>s. holds s0 s loss u) (imul loss x) (holds s0) (mul u x)"
  by (rule simI)
    (auto simp: imul_def holds_def fresh_def split: sum.splits intro: frame_update)


lemma sim_getitem_output:
  assumes "valid_refs s0"
  shows "sim s0 (\<lambda>s. True) (\<lambda>s. st_lift (getitem (output_refs s) key) s) (\<lambda>s. input_ref s0)
     (getitem (deref (heap s0) (output_refs s0)) key)"
proof (rule simI)
  fix s r s'
  assume fr: "frame s0 s" and run: "st_lift (getitem (output_refs s) key) s = (r, s')"
  from assms have v: "list_all (\<lambda>(key, a). a < length (heap s0)) (output_refs s0)"
    by (simp add: valid_refs_def)
  from run frame_fields [OF fr]
  have "st_lift (getitem (output_refs s0) key) s = (r, s')" by simp
  from simD [OF sim_getitem [OF v] fr _ this]
  show "frame s0 s' \<and> post r (getitem (deref (heap s0) (output_refs s0)) key) (input_ref s0)"
    by simp
qed

lemma sim_getitem_label:
  assumes "valid_refs s0"
  shows "sim s0 (\<lambda>s. True) (\<lambda>s. st_lift (getitem (label_refs s) key) s) (\<lambda>s. input_ref s0)
     (getitem (deref (heap s0) (label_refs s0)) key)"
proof (rule simI)
  fix s r s'
  assume fr: "frame s0 s" and run: "st_lift (getitem (label_refs s) key) s = (r, s')"
  from assms have v: "list_all (\<lambda>(key, a). a < length (heap s0)) (label_refs s0)"
    by (simp add: valid_refs_def)
  from run frame_fields [OF fr]
  have "st_lift (getitem (label_refs s0) key) s = (r, s')" by simp
  from simD [OF sim_getitem [OF v] fr _ this]
  show "frame s0 s' \<and> post r (getitem (deref (heap s0) (label_refs s0)) key) (input_ref s0)"
    by simp
qed

lemma sim_l1_loss:
  assumes "input_ref s0 out x" "input_ref s0 label y"
  shows "sim s0 (\<lambda>s. True) (\<lambda>s. new_tensor (l1_loss_none (heap s ! out) (heap s ! label)) s)
     (holds s0) (l1_loss_none x y)"
proof (rule simI)
  fix s r s'
  assume fr: "frame s0 s"
    and run: "new_tensor (l1_loss_none (heap s ! out) (heap s ! label)) s = (r, s')"
  from assms fr have "heap s ! out = x" "heap s ! label = y"
    by (simp_all add: input_ref_def frame_nth)
  with run have "new_tensor (l1_loss_none x y) s = (r, s')" by simp
  from simD [OF sim_new_tensor fr _ this]
  show "frame s0 s' \<and> post r (l1_loss_none x y) (holds s0 s')"
    by simp
qed

lemma sim_imul_weight_dict:
  assumes "valid_refs s0"
  shows "sim s0 (\<lambda>s. holds s0 s loss u) (imul_weight_dict key loss) (holds s0)
     (apply_weight_dict (map_option (deref (heap s0)) (weight_refs s0)) key u)"
proof (rule simI)
  fix s r s'
  assume fr: "frame s0 s" and pre: "holds s0 s loss u"
    and run: "imul_weight_dict key loss s = (r, s')"
  note fld = frame_fields [OF fr]
  show "frame s0 s' \<and>
      post r (apply_weight_dict (map_option (deref (heap s0)) (weight_refs s0)) key u) (holds s0 s')"
  proof (cases "weight_refs s0")
    case None
    with run fld fr pre show ?thesis
      by (auto simp: imul_weight_dict_def apply_weight_dict_def)
  next
    case (Some d)
    with assms have v: "list_all (\<lambda>(key, a). a < length (heap s0)) d"
      by (simp add: valid_refs_def)
    show ?thesis
    proof (cases "map_of d key")
      case None
      with Some run fld fr show ?thesis
        by (auto simp: imul_weight_dict_def apply_weight_dict_def getitem_def map_of_deref)
    next
      case (Some w)
      from map_of_valid [OF v Some] have w: "w < length (heap s0)" .
      with fr have hw: "heap s ! w = heap s0 ! w" by (simp add: frame_nth)
      from run \<open>weight_refs s0 = Some d\<close> Some fld hw
      have "imul loss (heap s0 ! w) s = (r, s')"
        by (simp add: imul_weight_dict_def getitem_def)
      from simD [OF sim_imul fr pre this] \<open>weight_refs s0 = Some d\<close> Some show ?thesis
        by (simp add: apply_weight_dict_def getitem_def map_of_deref)
    qed
  qed
qed

lemma sim_imul_weight:
  "sim s0 (\<lambda>s. holds s0 s loss u) (imul_weight key loss) (holds s0)
     (apply_weight (self_obj s0) key u)"
proof (rule simI)
  fix s r s'
  assume fr: "frame s0 s" and pre: "holds s0 s loss u"
    and run: "imul_weight key loss s = (r, s')"
  note fld = frame_fields [OF fr]
  have same: "frame s0 s' \<and> post r (Inr u) (holds s0 s')"
    if "(r, s') = (Inr loss, s)"
    using that fr pre by auto
  show "frame s0 s' \<and>
      post r (apply_weight (self_obj s0) key u) (holds s0 s')"
  proof (cases "weight (self_obj s0)")
    case NoWeight
    with run fld same show ?thesis by (simp add: imul_weight_def apply_weight_def)
  next
    case (FloatWeight w)
    with run fld have "imul loss (Num w) s = (r, s')" by (simp add: imul_weight_def)
    from simD [OF sim_imul fr pre this] FloatWeight show ?thesis
      by (simp add: apply_weight_def)
  next
    case (DictWeight d)
    show ?thesis
    proof (cases "map_of d key")
      case None
      with DictWeight run fld same show ?thesis by (simp add: imul_weight_def apply_weight_def)
    next
      case (Some w)
      with DictWeight run fld have "imul loss (Num w) s = (r, s')" by (simp add: imul_weight_def)
      from simD [OF sim_imul fr pre this] DictWeight Some show ?thesis
        by (simp add: apply_weight_def)
    qed
  qed
qed

lemma sim_imul_area:
  assumes "valid_refs s0"
  shows "sim s0 (\<lambda>s. holds s0 s loss u) (imul_area loss) (holds s0)
     (apply_area (deref (heap s0) (output_refs s0)) u)"
proof (rule simI)
  fix s r s'
  assume fr: "frame s0 s" and pre: "holds s0 s loss u" and run: "imul_area loss s = (r, s')"
  note fld = frame_fields [OF fr]
  from assms have v: "list_all (\<lambda>(key, a). a < length (heap s0)) (output_refs s0)"
    by (simp add: valid_refs_def)
  show "frame s0 s' \<and>
      post r (apply_area (deref (heap s0) (output_refs s0)) u) (holds s0 s')"
  proof (cases "map_of (output_refs s0) ''area''")
    case None
    with run fld fr pre show ?thesis
      by (auto simp: imul_area_def apply_area_def map_of_deref)
  next
    case (Some a)
    from map_of_valid [OF v Some] have "a < length (heap s0)" .
    with fr have "heap s ! a = heap s0 ! a" by (simp add: frame_nth)
    with run Some fld have "imul loss (heap s0 ! a) s = (r, s')" by (simp add: imul_area_def)
    from simD [OF sim_imul fr pre this] Some show ?thesis
      by (simp add: apply_area_def map_of_deref)
  qed
qed

lemma sim_reduce_st:
  "sim s0 (\<lambda>s. holds s0 s loss u) (reduce_st loss) (holds s0) (Inr (reduce (self_obj s0) u))"
proof (rule simI)
  fix s r s'
  assume fr: "frame s0 s" and pre: "holds s0 s loss u" and run: "reduce_st loss s = (r, s')"
  note fld = frame_fields [OF fr]
  from pre have hl: "heap s ! loss = u" by (simp add: holds_def)
  consider (sum) "reduction (self_obj s0) = ''sum''"
    | (mean) "reduction (self_obj s0) \<noteq> ''sum''" "reduction (self_obj s0) = ''mean''"
    | (none) "reduction (self_obj s0) \<noteq> ''sum''" "reduction (self_obj s0) \<noteq> ''mean''"
    by blast
  then show "frame s0 s' \<and>
      post r (Inr (reduce (self_obj s0) u)) (holds s0 s')"
  proof cases
    case sum
    with run fld hl have "new_tensor (Inr (tsum u)) s = (r, s')" by (simp add: reduce_st_def)
    from simD [OF sim_new_tensor fr _ this] sum show ?thesis by (simp add: reduce_def)
  next
    case mean
    with run fld hl have "new_tensor (Inr (tmean u)) s = (r, s')" by (simp add: reduce_st_def)
    from simD [OF sim_new_tensor fr _ this] mean show ?thesis by (simp add: reduce_def)
  next
    case none
    with run fld fr pre show ?thesis by (auto simp: reduce_st_def reduce_def)
  qed
qed

lemma sim_tail:
  "sim s0 (\<lambda>s. holds s0 s loss u) (st_bind (reduce_st loss) (\<lambda>loss. imul_weight key loss))
     (holds s0) (apply_weight (self_obj s0) key (reduce (self_obj s0) u))"
  using sim_bind [OF sim_reduce_st, of s0 "\<lambda>loss. imul_weight key loss" "holds s0"
      "\<lambda>u. apply_weight (self_obj s0) key u" loss u, OF sim_imul_weight]
  by simp

lemma sim_L1Loss_key_st:
  assumes v: "valid_refs s0"
  shows "sim s0 (\<lambda>s. True) (L1Loss_key_st key) (holds s0)
     (L1Loss_key_loss (self_obj s0) (deref (heap s0) (output_refs s0))
        (deref (heap s0) (label_refs s0)) (map_option (deref (heap s0)) (weight_refs s0)) key)"
  unfolding L1Loss_key_st_def L1Loss_key_loss_def
  apply (rule sim_bind [OF sim_getitem_output [OF v]])
  apply (rule sim_pre_const)
  apply (rule sim_bind [OF sim_getitem_label [OF v]])
  apply (rule sim_pre_const)
  apply (rule sim_bind [OF sim_l1_loss])
    apply assumption
   apply assumption
  apply (rule sim_bind [OF sim_imul_weight_dict [OF v]])
  apply (rule sim_bind [OF sim_imul_weight])
  apply (rule sim_bind [OF sim_imul_area [OF v]])
  apply (rule sim_tail)
  done


lemma sim_len:
  assumes "input_ref s0 out x"
  shows "sim s0 (\<lambda>s. True) (\<lambda>s. st_lift (len (heap s ! out)) s) (\<lambda>s v u. v = u) (len x)"
proof (rule simI)
  fix s r s'
  assume fr: "frame s0 s" and run: "st_lift (len (heap s ! out)) s = (r, s')"
  from assms fr have "heap s ! out = x" by (simp add: input_ref_def frame_nth)
  with run fr have "frame s0 s'" "r = len x" by (auto simp: st_lift_def)
  then show "frame s0 s' \<and> post r (len x) (\<lambda>v u. v = u)"
    by (simp add: post_refl)
qed

lemma sim_halves:
  assumes "input_ref s0 out x"
  shows "sim s0 (\<lambda>s. True)
     (\<lambda>s. if c then (Inl e, s)
          else new_tensor (l1_loss_none (slice_to n (heap s ! out)) (slice_from n (heap s ! out))) s)
     (holds s0)
     (if c then Inl e else l1_loss_none (slice_to n x) (slice_from n x))"
proof (rule simI)
  fix s r s'
  assume fr: "frame s0 s"
    and run: "(if c then (Inl e, s)
          else new_tensor (l1_loss_none (slice_to n (heap s ! out)) (slice_from n (heap s ! out))) s) =
       (r, s')"
  from assms fr have hx: "heap s ! out = x" by (simp add: input_ref_def frame_nth)
  show "frame s0 s' \<and>
      post r (if c then Inl e else l1_loss_none (slice_to n x) (slice_from n x)) (holds s0 s')"
  proof (cases c)
    case True
    with run fr show ?thesis by auto
  next
    case False
    with run hx have "new_tensor (l1_loss_none (slice_to n x) (slice_from n x)) s = (r, s')"
      by simp
    from simD [OF sim_new_tensor fr _ this] False show ?thesis by simp
  qed
qed

lemma sim_PeriodicL1Loss_key_st:
  assumes v: "valid_refs s0"
  shows "sim s0 (\<lambda>s. True) (PeriodicL1Loss_key_st key) (holds s0)
     (PeriodicL1Loss_key_loss (self_obj s0) (deref (heap s0) (output_refs s0))
        (map_option (deref (heap s0)) (weight_refs s0)) key)"
  unfolding PeriodicL1Loss_key_st_def PeriodicL1Loss_key_loss_def periodic_elementwise_def
    bind_err_assoc
  apply (rule sim_bind [OF sim_getitem_output [OF v]])
  apply (rule sim_pre_const)
  apply (rule sim_bind [OF sim_len])
   apply assumption
  apply (rule sim_pre_const)
  apply hypsubst
  apply (rule sim_bind [OF sim_halves])
   apply assumption
  apply (rule sim_bind [OF sim_imul_weight_dict [OF v]])
  apply (rule sim_bind [OF sim_imul_area [OF v]])
  apply (rule sim_tail)
  done

lemma holds_val_frame:
  "frame s s1 \<Longrightarrow> holds_val s0 s losses acc \<Longrightarrow> holds_val s0 s1 losses acc"
  by (cases losses) (auto simp: holds_def frame_def nth_append)

lemma iadd_sim:
  assumes fr: "frame s0 s" and acc: "holds_val s0 s losses acc" and l: "holds s0 s loss l"
    and run: "iadd losses loss s = (r, s')"
  shows "frame s0 s' \<and> post r (add acc l) (holds_val s0 s')"
proof (cases losses)
  case (PyFloat f)
  with acc l have "acc = Num f" "heap s ! loss = l" by (simp_all add: holds_def)
  with run PyFloat fr show ?thesis
    by (cases "add (Num f) l") (auto simp: iadd_def holds_def frame_def)
next
  case (TensorRef a)
  with acc l have h: "holds s0 s a acc" "heap s ! a = acc" "heap s ! loss = l"
    by (simp_all add: holds_def)
  with run TensorRef fr show ?thesis
    by (cases "add acc l") (auto simp: iadd_def holds_def fresh_def intro: frame_update)
qed

lemma L1Loss_loop_st_sim:
  assumes v: "valid_refs s0"
  shows "frame s0 s \<Longrightarrow> holds_val s0 s losses acc \<Longrightarrow>
     L1Loss_loop_st losses keys s = (r, s') \<Longrightarrow>
     frame s0 s' \<and>
     post r (L1Loss_loop (self_obj s0) (deref (heap s0) (output_refs s0))
        (deref (heap s0) (label_refs s0)) (map_option (deref (heap s0)) (weight_refs s0))
        acc keys) (holds_val s0 s')"
proof (induction keys arbitrary: s losses acc)
  case Nil
  then show ?case by (cases losses) (auto simp: st_lift_def)
next
  case (Cons key keys)
  let ?kl = "L1Loss_key_loss (self_obj s0) (deref (heap s0) (output_refs s0))
        (deref (heap s0) (label_refs s0)) (map_option (deref (heap s0)) (weight_refs s0)) key"
  obtain r1 s1 where k: "L1Loss_key_st key s = (r1, s1)" by (cases "L1Loss_key_st key s")
  from simD [OF sim_L1Loss_key_st [OF v] Cons.prems(1) _ k]
  have fr1: "frame s0 s1" and p1: "post r1 ?kl (holds s0 s1)" by simp_all
  from keeps_frameD [OF keeps_frame_L1Loss_key_st frame_refl k] have "frame s s1" by simp
  from holds_val_frame [OF this Cons.prems(2)] have acc1: "holds_val s0 s1 losses acc" .
  show ?case
  proof (cases r1)
    case (Inl e)
    with p1 k Cons.prems(3) fr1 show ?thesis by (auto simp: st_bind_def)
  next
    case (Inr loss)
    with p1 obtain l where l: "?kl = Inr l" "holds s0 s1 loss l" by auto
    obtain r2 s2 where a: "iadd losses loss s1 = (r2, s2)" by (cases "iadd losses loss s1")
    from iadd_sim [OF fr1 acc1 l(2) a]
    have fr2: "frame s0 s2" and p2: "post r2 (add acc l) (holds_val s0 s2)" by simp_all
    show ?thesis
    proof (cases r2)
      case (Inl e)
      with p2 a k \<open>r1 = Inr loss\<close> l(1) Cons.prems(3) fr2 show ?thesis
        by (auto simp: st_bind_def)
    next
      case (Inr losses')
      with p2 obtain acc' where acc': "add acc l = Inr acc'" "holds_val s0 s2 losses' acc'"
        by auto
      from Cons.prems(3) k a \<open>r1 = Inr loss\<close> Inr
      have "L1Loss_loop_st losses' keys s2 = (r, s')" by (simp add: st_bind_def)
      from Cons.IH [OF fr2 acc'(2) this] l(1) acc'(1) show ?thesis by simp
    qed
  qed
qed

lemma PeriodicL1Loss_loop_st_sim:
  assumes v: "valid_refs s0"
  shows "frame s0 s \<Longrightarrow> holds_val s0 s losses acc \<Longrightarrow>
     PeriodicL1Loss_loop_st losses keys s = (r, s') \<Longrightarrow>
     frame s0 s' \<and>
     post r (PeriodicL1Loss_loop (self_obj s0) (deref (heap s0) (output_refs s0))
        (map_option (deref (heap s0)) (weight_refs s0)) acc keys) (holds_val s0 s')"
proof (induction keys arbitrary: s losses acc)
  case Nil
  then show ?case by (cases losses) (auto simp: st_lift_def)
next
  case (Cons key keys)
  let ?kl = "PeriodicL1Loss_key_loss (self_obj s0) (deref (heap s0) (output_refs s0))
        (map_option (deref (heap s0)) (weight_refs s0)) key"
  obtain r1 s1 where k: "PeriodicL1Loss_key_st key s = (r1, s1)"
    by (cases "PeriodicL1Loss_key_st key s")
  from simD [OF sim_PeriodicL1Loss_key_st [OF v] Cons.prems(1) _ k]
  have fr1: "frame s0 s1" and p1: "post r1 ?kl (holds s0 s1)" by simp_all
  from keeps_frameD [OF keeps_frame_PeriodicL1Loss_key_st frame_refl k] have "frame s s1"
    by simp
  from holds_val_frame [OF this Cons.prems(2)] have acc1: "holds_val s0 s1 losses acc" .
  show ?case
  proof (cases r1)
    case (Inl e)
    with p1 k Cons.prems(3) fr1 show ?thesis by (auto simp: st_bind_def)
  next
    case (Inr loss)
    with p1 obtain l where l: "?kl = Inr l" "holds s0 s1 loss l" by auto
    obtain r2 s2 where a: "iadd losses loss s1 = (r2, s2)" by (cases "iadd losses loss s1")
    from iadd_sim [OF fr1 acc1 l(2) a]
    have fr2: "frame s0 s2" and p2: "post r2 (add acc l) (holds_val s0 s2)" by simp_all
    show ?thesis
    proof (cases r2)
      case (Inl e)
      with p2 a k \<open>r1 = Inr loss\<close> l(1) Cons.prems(3) fr2 show ?thesis
        by (auto simp: st_bind_def)
    next
      case (Inr losses')
      with p2 obtain acc' where acc': "add acc l = Inr acc'" "holds_val s0 s2 losses' acc'"
        by auto
      from Cons.prems(3) k a \<open>r1 = Inr loss\<close> Inr
      have "PeriodicL1Loss_loop_st losses' keys s2 = (r, s')" by (simp add: st_bind_def)
      from Cons.IH [OF fr2 acc'(2) this] l(1) acc'(1) show ?thesis by simp
    qed
  qed
qed

lemma holds_val_value: "holds_val s0 s pv u \<Longrightarrow> value_of (heap s) pv = u"
  by (cases pv) (simp_all add: holds_def)

lemma forward_st_value:
  assumes v: "valid_refs s"
  shows "(L1Loss_forward_st s = (r, s') \<longrightarrow>
       L1Loss_forward (self_obj s) (deref (heap s) (output_refs s)) (deref (heap s) (label_refs s))
         (map_option (deref (heap s)) (weight_refs s)) = map_sum id (value_of (heap s')) r) \<and>
     (PeriodicL1Loss_forward_st s = (r, s') \<longrightarrow>
       PeriodicL1Loss_forward (self_obj s) (deref (heap s) (output_refs s))
         (deref (heap s) (label_refs s)) (map_option (deref (heap s)) (weight_refs s)) =
       map_sum id (value_of (heap s')) r)"
proof (intro conjI impI)
  have keys: "map fst (deref (heap s) (label_refs s)) = map fst (label_refs s)"
    by (simp add: deref_def case_prod_unfold)
  have start: "holds_val s s (PyFloat (Fin 0)) (Num (Fin 0))" by simp
  {
    assume "L1Loss_forward_st s = (r, s')"
    then have "L1Loss_loop_st (PyFloat (Fin 0)) (map fst (label_refs s)) s = (r, s')"
      by (simp add: L1Loss_forward_st_def)
    from L1Loss_loop_st_sim [OF v frame_refl start this]
    show "L1Loss_forward (self_obj s) (deref (heap s) (output_refs s))
         (deref (heap s) (label_refs s)) (map_option (deref (heap s)) (weight_refs s)) =
       map_sum id (value_of (heap s')) r"
      by (cases r) (auto simp: L1Loss_forward_def keys dest: holds_val_value)
  }
  {
    assume "PeriodicL1Loss_forward_st s = (r, s')"
    then have "PeriodicL1Loss_loop_st (PyFloat (Fin 0)) (map fst (label_refs s)) s = (r, s')"
      by (simp add: PeriodicL1Loss_forward_st_def)
    from PeriodicL1Loss_loop_st_sim [OF v frame_refl start this]
    show "PeriodicL1Loss_forward (self_obj s) (deref (heap s) (output_refs s))
         (deref (heap s) (label_refs s)) (map_option (deref (heap s)) (weight_refs s)) =
       map_sum id (value_of (heap s')) r"
      by (cases r) (auto simp: PeriodicL1Loss_forward_def keys dest: holds_val_value)
  }
qed


section \<open>The constructors\<close>

text \<open>
  Claim C2.  Both constructors raise exactly when the reduction is neither \<open>''mean''\<close>
  nor \<open>''sum''\<close>, and the error is then the \<open>ValueError\<close> about the reduction; for
  one of the two values construction succeeds and the object holds the reduction and
  the weight it was given.
\<close>

theorem init_raises_iff:
  "((\<exists>e. L1Loss_init r w = Inl e) \<longleftrightarrow> r \<noteq> ''mean'' \<and> r \<noteq> ''sum'') \<and>
   (r \<noteq> ''mean'' \<and> r \<noteq> ''sum'' \<longrightarrow> L1Loss_init r w = Inl (ValueError (BadReduction r))) \<and>
   (r = ''mean'' \<or> r = ''sum'' \<longrightarrow>
      (\<exists>self. L1Loss_init r w = Inr self \<and> reduction self = r \<and> weight self = w)) \<and>
   ((\<exists>e. PeriodicL1Loss_init r w = Inl e) \<longleftrightarrow> r \<noteq> ''mean'' \<and> r \<noteq> ''sum'') \<and>
   (r \<noteq> ''mean'' \<and> r \<noteq> ''sum'' \<longrightarrow>
      PeriodicL1Loss_init r w = Inl (ValueError (BadReduction r))) \<and>
   (r = ''mean'' \<or> r = ''sum'' \<longrightarrow>
      (\<exists>self. PeriodicL1Loss_init r w = Inr self \<and> reduction self = r \<and> weight self = w))"
  by (simp add: L1Loss_init_def PeriodicL1Loss_init_def Loss_init_def)

theorem init_raises_iff_witness:
  "L1Loss_init ''sum'' (FloatWeight (Fin 2)) =
     Inr \<lparr>reduction = ''sum'', weight = FloatWeight (Fin 2)\<rparr> \<and>
   PeriodicL1Loss_init ''sum'' (FloatWeight (Fin 2)) =
     Inr \<lparr>reduction = ''sum'', weight = FloatWeight (Fin 2)\<rparr> \<and>
   L1Loss_init ''max'' NoWeight = Inl (ValueError (BadReduction ''max'')) \<and>
   PeriodicL1Loss_init ''max'' NoWeight = Inl (ValueError (BadReduction ''max''))"
  using init_raises_iff [of "''sum''" "FloatWeight (Fin 2)"]
    init_raises_iff [of "''max''" NoWeight]
  by auto

section \<open>The periodic variant and the label tensors\<close>

text \<open>
  Claim C10.  Two calls of \<^verbatim>\<open>PeriodicL1Loss.forward\<close> that agree on the object, on
  \<^verbatim>\<open>output_dict\<close>, on \<^verbatim>\<open>weight_dict\<close> and on the keys of \<^verbatim>\<open>label_dict\<close> in their
  order return the same result (value or exception), whatever tensors the two label
  dicts hold.
\<close>

theorem periodic_forward_label_values_unread:
  "map fst label_dict = map fst label_dict' \<Longrightarrow>
   PeriodicL1Loss_forward self output_dict label_dict weight_dict =
   PeriodicL1Loss_forward self output_dict label_dict' weight_dict"
  by (simp add: PeriodicL1Loss_forward_def)

theorem periodic_forward_label_values_unread_witness:
  "PeriodicL1Loss_forward \<lparr>reduction = ''sum'', weight = NoWeight\<rparr>
     [(''u'', Arr [Num (Fin 1), Num (Fin 3)])] [(''u'', Arr [Num (Fin 7)])] None =
   PeriodicL1Loss_forward \<lparr>reduction = ''sum'', weight = NoWeight\<rparr>
     [(''u'', Arr [Num (Fin 1), Num (Fin 3)])] [(''u'', Num NaN)] None \<and>
   PeriodicL1Loss_forward \<lparr>reduction = ''sum'', weight = NoWeight\<rparr>
     [(''u'', Arr [Num (Fin 1), Num (Fin 3)])] [(''u'', Arr [Num (Fin 7)])] None =
   Inr (Num (Fin 2))"
proof -
  have keys: "map fst [(''u'', Arr [Num (Fin 7)])] = map fst [(''u'', Num NaN)]"
    by simp
  show ?thesis
    using periodic_forward_label_values_unread [OF keys]
    by (simp add: model_defs)
qed

section \<open>The length check of the periodic variant\<close>

text \<open>
  Claim C3 (amended).  When the keys of \<^verbatim>\<open>label_dict\<close> before \<open>key\<close> have been processed
  without an exception and the output tensor of \<open>key\<close> has an odd leading dimension,
  \<^verbatim>\<open>PeriodicL1Loss.forward\<close> raises the \<open>ValueError\<close> about that length and key.  When
  every key's output tensor has an even leading dimension, that error is never raised.
\<close>

theorem periodic_forward_odd_length:
  "(map fst label_dict = ks @ key # ks' \<and>
    PeriodicL1Loss_loop self output_dict weight_dict (Num (Fin 0)) ks = Inr acc \<and>
    getitem output_dict key = Inr out \<and> len out = Inr n \<and> odd n \<longrightarrow>
    PeriodicL1Loss_forward self output_dict label_dict weight_dict =
      Inl (ValueError (OddLength n key))) \<and>
   ((\<forall>k out n. k \<in> set (map fst label_dict) \<and> getitem output_dict k = Inr out \<and> len out = Inr n
       \<longrightarrow> even n) \<longrightarrow>
    (\<forall>n k. PeriodicL1Loss_forward self output_dict label_dict weight_dict \<noteq>
       Inl (ValueError (OddLength n k))))"
proof (intro conjI impI allI)
  assume a: "map fst label_dict = ks @ key # ks' \<and>
    PeriodicL1Loss_loop self output_dict weight_dict (Num (Fin 0)) ks = Inr acc \<and>
    getitem output_dict key = Inr out \<and> len out = Inr n \<and> odd n"
  then have "periodic_elementwise output_dict key = Inl (ValueError (OddLength n key))"
    by (simp add: periodic_elementwise_odd)
  then have "PeriodicL1Loss_key_loss self output_dict weight_dict key =
      Inl (ValueError (OddLength n key))"
    by (simp add: PeriodicL1Loss_key_loss_def)
  with a show "PeriodicL1Loss_forward self output_dict label_dict weight_dict =
      Inl (ValueError (OddLength n key))"
    by (simp add: PeriodicL1Loss_forward_def periodic_loop_append)
next
  fix n k
  assume all_even: "\<forall>k out n. k \<in> set (map fst label_dict) \<and> getitem output_dict k = Inr out \<and>
    len out = Inr n \<longrightarrow> even n"
  show "PeriodicL1Loss_forward self output_dict label_dict weight_dict \<noteq>
       Inl (ValueError (OddLength n k))"
  proof
    assume "PeriodicL1Loss_forward self output_dict label_dict weight_dict =
       Inl (ValueError (OddLength n k))"
    then have "PeriodicL1Loss_loop self output_dict weight_dict (Num (Fin 0)) (map fst label_dict) =
       Inl (ValueError (OddLength n k))"
      by (simp add: PeriodicL1Loss_forward_def)
    from periodic_loop_OddLength [OF this] all_even show False by blast
  qed
qed


theorem periodic_forward_odd_length_witness:
  "PeriodicL1Loss_forward \<lparr>reduction = ''sum'', weight = NoWeight\<rparr>
     [(''u'', Arr [Num (Fin 1), Num (Fin 3)]), (''v'', Arr [Num (Fin 1), Num (Fin 2), Num (Fin 4)])]
     [(''u'', Num (Fin 0)), (''v'', Num (Fin 0))] None = Inl (ValueError (OddLength 3 ''v'')) \<and>
   PeriodicL1Loss_forward \<lparr>reduction = ''sum'', weight = NoWeight\<rparr>
     [(''u'', Arr [Num (Fin 1), Num (Fin 3)])] [(''u'', Num (Fin 0))] None \<noteq>
     Inl (ValueError (OddLength 2 ''u''))"
proof -
  let ?self = "\<lparr>reduction = ''sum'', weight = NoWeight\<rparr>"
  let ?u = "Arr [Num (Fin 1), Num (Fin 3)]"
  let ?v = "Arr [Num (Fin 1), Num (Fin 2), Num (Fin 4)]"
  let ?od = "[(''u'', ?u), (''v'', ?v)]"
  let ?ld = "[(''u'', Num (Fin 0)), (''v'', Num (Fin 0))]"
  have odd_case: "map fst ?ld = [''u''] @ ''v'' # [] \<and>
      PeriodicL1Loss_loop ?self ?od None (Num (Fin 0)) [''u''] = Inr (Num (Fin 2)) \<and>
      getitem ?od ''v'' = Inr ?v \<and> len ?v = Inr 3 \<and> odd (3::nat)"
    by (simp add: model_defs)
  have even_case: "\<forall>k out n. k \<in> set (map fst [(''u'', Num (Fin 0))]) \<and>
      getitem [(''u'', ?u)] k = Inr out \<and> len out = Inr n \<longrightarrow> even n"
    by (auto simp: model_defs)
  from odd_case even_case
    periodic_forward_odd_length [of ?ld "[''u'']" "''v''" "[]" ?self ?od None "Num (Fin 2)" ?v 3]
    periodic_forward_odd_length [of "[(''u'', Num (Fin 0))]" "[]" "''u''" "[]" ?self
      "[(''u'', ?u)]" None "Num (Fin 0)" ?u 2]
  show ?thesis by blast
qed

text \<open>
  The claim without the condition on the earlier keys fails: here the output tensor of
  \<open>''v''\<close> has length 3, but \<open>''u''\<close> comes first in \<^verbatim>\<open>label_dict\<close> and has no output
  tensor, so \<^verbatim>\<open>output_dict[key]\<close> raises \<open>KeyError\<close> before the length of \<open>''v''\<close> is
  looked at.
\<close>

theorem periodic_forward_odd_length_counterexample:
  "getitem [(''v'', Arr [Num (Fin 1), Num (Fin 2), Num (Fin 4)])] ''v'' =
     Inr (Arr [Num (Fin 1), Num (Fin 2), Num (Fin 4)]) \<and>
   len (Arr [Num (Fin 1), Num (Fin 2), Num (Fin 4)]) = Inr 3 \<and>
   PeriodicL1Loss_forward \<lparr>reduction = ''sum'', weight = NoWeight\<rparr>
     [(''v'', Arr [Num (Fin 1), Num (Fin 2), Num (Fin 4)])]
     [(''u'', Num (Fin 0)), (''v'', Num (Fin 0))] None = Inl (KeyError ''u'')"
  by (simp add: model_defs)

section \<open>The two halves of the periodic variant\<close>

text \<open>
  Claim C5.  For a key whose (rectangular) output tensor has the even leading dimension
  \<open>2 * n\<close>, the elementwise loss of \<^verbatim>\<open>PeriodicL1Loss.forward\<close> has \<open>n\<close> entries, and entry
  \<open>i\<close> is the elementwise absolute difference (\<open>l1_elem\<close>) of entry \<open>i\<close> and entry
  \<open>n + i\<close> of the output tensor; the weighting and the reduction are applied to this
  tensor afterwards.
\<close>

theorem periodic_elementwise_halves:
  assumes out: "getitem output_dict key = Inr (Arr xs)"
    and wf: "wf_tensor (Arr xs)"
    and len: "length xs = 2 * n"
  shows "\<exists>ls. periodic_elementwise output_dict key = Inr (Arr ls) \<and> length ls = n \<and>
     (\<forall>i<n. ls ! i = bop l1_elem (xs ! i) (xs ! (n + i)) \<and>
        flatten (ls ! i) = map2 l1_elem (flatten (xs ! i)) (flatten (xs ! (n + i)))) \<and>
     PeriodicL1Loss_key_loss self output_dict weight_dict key =
       bind_err (apply_weight_dict weight_dict key (Arr ls)) (\<lambda>loss.
       bind_err (apply_area output_dict loss) (\<lambda>loss.
       apply_weight self key (reduce self loss)))"
proof -
  define ls where "ls = map (\<lambda>(x, y). bop l1_elem x y) (zip (take n xs) (drop n xs))"
  have pe: "periodic_elementwise output_dict key = Inr (Arr ls)"
    unfolding periodic_elementwise_def ls_def
    using out len l1_loss_none_halves [OF wf len]
    by (simp add: slice_to_def slice_from_def)
  have n: "length ls = n" using len by (simp add: ls_def)
  have entry: "ls ! i = bop l1_elem (xs ! i) (xs ! (n + i)) \<and>
      flatten (ls ! i) = map2 l1_elem (flatten (xs ! i)) (flatten (xs ! (n + i)))"
    if i: "i < n" for i
  proof -
    from i len have lt: "i < length xs" "n + i < length xs" by simp_all
    have eq: "ls ! i = bop l1_elem (xs ! i) (xs ! (n + i))"
      using i len by (simp add: ls_def)
    from wf_Arr_nth [OF wf lt(1)] wf_Arr_nth [OF wf lt(2)]
    have "wf_tensor (xs ! i)" "wf_tensor (xs ! (n + i))" "shape (xs ! i) = shape (xs ! (n + i))"
      by simp_all
    from bop_same_shape [OF this] eq show ?thesis by simp
  qed
  have "PeriodicL1Loss_key_loss self output_dict weight_dict key =
       bind_err (apply_weight_dict weight_dict key (Arr ls)) (\<lambda>loss.
       bind_err (apply_area output_dict loss) (\<lambda>loss.
       apply_weight self key (reduce self loss)))"
    by (simp add: PeriodicL1Loss_key_loss_def pe)
  with pe n entry show ?thesis by blast
qed

theorem periodic_elementwise_halves_witness:
  "periodic_elementwise [(''u'', Arr [Num (Fin 1), Num (Fin 5), Num (Fin 4), Num (Fin 3)])] ''u'' =
     Inr (Arr [Num (Fin 3), Num (Fin 2)])"
proof -
  let ?xs = "[Num (Fin 1), Num (Fin 5), Num (Fin 4), Num (Fin 3)]"
  let ?od = "[(''u'', Arr ?xs)]"
  have out: "getitem ?od ''u'' = Inr (Arr ?xs)" by (simp add: getitem_def)
  have wf: "wf_tensor (Arr ?xs)" by simp
  have len: "length ?xs = 2 * 2" by simp
  from periodic_elementwise_halves [OF out wf len]
  obtain ls where ls: "periodic_elementwise ?od ''u'' = Inr (Arr ls)" "length ls = 2"
    "\<forall>i<2. ls ! i = bop l1_elem (?xs ! i) (?xs ! (2 + i))"
    by blast
  from ls(3) have "ls ! 0 = Num (Fin 3)" "ls ! 1 = Num (Fin 2)"
    by (simp_all add: l1_elem_def)
  with ls(2) have "ls = [Num (Fin 3), Num (Fin 2)]"
    by (intro nth_equalityI) (auto simp: less_Suc_eq numeral_2_eq_2)
  with ls(1) show ?thesis by simp
qed


section \<open>The constructor weight\<close>

text \<open>
  Claim C1 (amended).  With a constructor weight \<open>w\<close> (a float, or a dict holding the
  key), \<^verbatim>\<open>L1Loss.forward\<close> multiplies the loss of a key by \<open>w\<close> before the reduction and
  again after it, so the value of the key is the value without constructor weight scaled
  by \<open>w\<close> twice; \<^verbatim>\<open>PeriodicL1Loss.forward\<close> multiplies only after the reduction, so the
  value of the key is the value without constructor weight scaled by \<open>w\<close> once.
\<close>

theorem constructor_weight_factor:
  assumes w: "weight self = FloatWeight w \<or>
    (\<exists>d. weight self = DictWeight d \<and> map_of d key = Some w)"
  shows "L1Loss_key_loss self output_dict label_dict weight_dict key =
       bind_err (getitem output_dict key) (\<lambda>out.
       bind_err (getitem label_dict key) (\<lambda>label.
       bind_err (l1_loss_none out label) (\<lambda>loss.
       bind_err (apply_weight_dict weight_dict key loss) (\<lambda>loss.
       bind_err (mul loss (Num w)) (\<lambda>loss.
       bind_err (apply_area output_dict loss) (\<lambda>loss.
       mul (reduce self loss) (Num w))))))) \<and>
     L1Loss_key_loss self output_dict label_dict weight_dict key =
       bind_err (L1Loss_key_loss (self\<lparr>weight := NoWeight\<rparr>) output_dict label_dict weight_dict key)
         (\<lambda>loss. Inr (scale w (scale w loss))) \<and>
     PeriodicL1Loss_key_loss self output_dict weight_dict key =
       bind_err (periodic_elementwise output_dict key) (\<lambda>loss.
       bind_err (apply_weight_dict weight_dict key loss) (\<lambda>loss.
       bind_err (apply_area output_dict loss) (\<lambda>loss.
       mul (reduce self loss) (Num w)))) \<and>
     PeriodicL1Loss_key_loss self output_dict weight_dict key =
       bind_err (PeriodicL1Loss_key_loss (self\<lparr>weight := NoWeight\<rparr>) output_dict weight_dict key)
         (\<lambda>loss. Inr (scale w loss))"
proof (intro conjI)
  have aw: "apply_weight self key loss = mul loss (Num w)" for loss
    using w by (auto simp: apply_weight_def)
  show "L1Loss_key_loss self output_dict label_dict weight_dict key =
       bind_err (getitem output_dict key) (\<lambda>out.
       bind_err (getitem label_dict key) (\<lambda>label.
       bind_err (l1_loss_none out label) (\<lambda>loss.
       bind_err (apply_weight_dict weight_dict key loss) (\<lambda>loss.
       bind_err (mul loss (Num w)) (\<lambda>loss.
       bind_err (apply_area output_dict loss) (\<lambda>loss.
       mul (reduce self loss) (Num w)))))))"
    by (simp only: L1Loss_key_loss_def aw)
  show "PeriodicL1Loss_key_loss self output_dict weight_dict key =
       bind_err (periodic_elementwise output_dict key) (\<lambda>loss.
       bind_err (apply_weight_dict weight_dict key loss) (\<lambda>loss.
       bind_err (apply_area output_dict loss) (\<lambda>loss.
       mul (reduce self loss) (Num w))))"
    by (simp only: PeriodicL1Loss_key_loss_def aw)
  show "L1Loss_key_loss self output_dict label_dict weight_dict key =
       bind_err (L1Loss_key_loss (self\<lparr>weight := NoWeight\<rparr>) output_dict label_dict weight_dict key)
         (\<lambda>loss. Inr (scale w (scale w loss)))"
    by (rule L1Loss_key_loss_weight_twice [OF w])
  show "PeriodicL1Loss_key_loss self output_dict weight_dict key =
       bind_err (PeriodicL1Loss_key_loss (self\<lparr>weight := NoWeight\<rparr>) output_dict weight_dict key)
         (\<lambda>loss. Inr (scale w loss))"
    by (rule PeriodicL1Loss_key_loss_weight_once [OF w])
qed

theorem constructor_weight_factor_witness:
  "L1Loss_key_loss \<lparr>reduction = ''sum'', weight = FloatWeight (Fin 2)\<rparr>
     [(''u'', Arr [Num (Fin 1), Num (Fin 3)])] [(''u'', Arr [Num (Fin 2), Num (Fin 5)])] None ''u'' =
     Inr (Num (Fin 12)) \<and>
   L1Loss_key_loss \<lparr>reduction = ''sum'', weight = NoWeight\<rparr>
     [(''u'', Arr [Num (Fin 1), Num (Fin 3)])] [(''u'', Arr [Num (Fin 2), Num (Fin 5)])] None ''u'' =
     Inr (Num (Fin 3)) \<and>
   PeriodicL1Loss_key_loss \<lparr>reduction = ''sum'', weight = FloatWeight (Fin 2)\<rparr>
     [(''u'', Arr [Num (Fin 1), Num (Fin 3)])] None ''u'' = Inr (Num (Fin 4)) \<and>
   PeriodicL1Loss_key_loss \<lparr>reduction = ''sum'', weight = NoWeight\<rparr>
     [(''u'', Arr [Num (Fin 1), Num (Fin 3)])] None ''u'' = Inr (Num (Fin 2))"
proof -
  let ?self = "\<lparr>reduction = ''sum'', weight = FloatWeight (Fin 2)\<rparr>"
  let ?od = "[(''u'', Arr [Num (Fin 1), Num (Fin 3)])]"
  let ?ld = "[(''u'', Arr [Num (Fin 2), Num (Fin 5)])]"
  have w: "weight ?self = FloatWeight (Fin 2) \<or>
      (\<exists>d. weight ?self = DictWeight d \<and> map_of d ''u'' = Some (Fin 2))"
    by simp
  have plain: "L1Loss_key_loss (?self\<lparr>weight := NoWeight\<rparr>) ?od ?ld None ''u'' = Inr (Num (Fin 3))"
    "PeriodicL1Loss_key_loss (?self\<lparr>weight := NoWeight\<rparr>) ?od None ''u'' = Inr (Num (Fin 2))"
    by (simp_all add: model_defs)
  note th = constructor_weight_factor [OF w, of ?od ?ld None]
  have "L1Loss_key_loss ?self ?od ?ld None ''u'' = Inr (scale (Fin 2) (scale (Fin 2) (Num (Fin 3))))"
    using th [THEN conjunct2, THEN conjunct1] by (simp only: plain bind_err_simps)
  moreover
  have "PeriodicL1Loss_key_loss ?self ?od None ''u'' = Inr (scale (Fin 2) (Num (Fin 2)))"
    using th [THEN conjunct2, THEN conjunct2, THEN conjunct2] by (simp only: plain bind_err_simps)
  ultimately show ?thesis using plain by (simp add: scale_def)
qed

text \<open>
  The claim as stated fails for the periodic variant: with weight 2 and the sum
  reduction, the output \<open>[1, 3]\<close> gives \<open>2 * |1 - 3| = 4\<close>, where a weight applied before
  and after the reduction would give 8.
\<close>

theorem constructor_weight_factor_counterexample:
  "PeriodicL1Loss_key_loss \<lparr>reduction = ''sum'', weight = FloatWeight (Fin 2)\<rparr>
     [(''u'', Arr [Num (Fin 1), Num (Fin 3)])] None ''u'' = Inr (Num (Fin 4)) \<and>
   claimed_periodic_key_loss \<lparr>reduction = ''sum'', weight = FloatWeight (Fin 2)\<rparr>
     [(''u'', Arr [Num (Fin 1), Num (Fin 3)])] None ''u'' = Inr (Num (Fin 8)) \<and>
   PeriodicL1Loss_key_loss \<lparr>reduction = ''sum'', weight = NoWeight\<rparr>
     [(''u'', Arr [Num (Fin 1), Num (Fin 3)])] None ''u'' = Inr (Num (Fin 2))"
  by (simp add: model_defs claimed_periodic_key_loss_def)


section \<open>The unweighted loss of \<^verbatim>\<open>L1Loss\<close>\<close>

text \<open>
  Claim C4 (amended).  For \<^verbatim>\<open>L1Loss.forward\<close> with no constructor weight, no \<^verbatim>\<open>weight_dict\<close>
  and no \<open>''area''\<close> entry, and an output and a label tensor of one shape with \<open>N\<close>
  elements each, the elementwise loss has the same shape and its element \<open>i\<close> is the
  absolute difference (\<open>l1_elem\<close>) of the elements \<open>i\<close> of output and label; the value of
  the key is the reduction of this tensor and nothing else: the sum of the \<open>N\<close>
  differences for the reduction \<open>''sum''\<close>, and that sum divided by \<open>N\<close> for the reduction
  \<open>''mean''\<close>.  The statement is in the operations of the tensors (\<open>l1_elem\<close>, \<open>fl_sum\<close>,
  \<open>fl_div_count\<close>); its proof uses no law of real arithmetic.
\<close>

theorem L1Loss_key_loss_formula:
  assumes nw: "weight self = NoWeight"
    and na: "map_of output_dict ''area'' = None"
    and x: "getitem output_dict key = Inr x"
    and y: "getitem label_dict key = Inr y"
    and wf: "wf_tensor x" "wf_tensor y" "shape x = shape y"
  shows "numel y = numel x \<and>
     (\<exists>loss. l1_loss_none x y = Inr loss \<and> shape loss = shape x \<and> numel loss = numel x \<and>
        (\<forall>i<numel x. flatten loss ! i = l1_elem (flatten x ! i) (flatten y ! i)) \<and>
        L1Loss_key_loss self output_dict label_dict None key = Inr (reduce self loss)) \<and>
     (reduction self = ''sum'' \<longrightarrow>
        L1Loss_key_loss self output_dict label_dict None key =
          Inr (Num (fl_sum (map2 l1_elem (flatten x) (flatten y))))) \<and>
     (reduction self = ''mean'' \<longrightarrow>
        L1Loss_key_loss self output_dict label_dict None key =
          Inr (Num (fl_div_count (fl_sum (map2 l1_elem (flatten x) (flatten y))) (numel x))))"
proof -
  from numel_same_shape [OF wf] have len: "numel y = numel x"
    by (simp add: numel_def)
  from l1_loss_none_same_shape [OF wf] obtain loss
    where loss: "l1_loss_none x y = Inr loss" "shape loss = shape x"
      and fl: "flatten loss = map2 l1_elem (flatten x) (flatten y)"
    by blast
  have n: "numel loss = numel x"
    using len by (simp add: numel_def fl)
  have nth: "flatten loss ! i = l1_elem (flatten x ! i) (flatten y ! i)" if "i < numel x" for i
    using that len by (simp add: fl numel_def)
  have kl: "L1Loss_key_loss self output_dict label_dict None key = Inr (reduce self loss)"
    by (simp add: L1Loss_key_loss_def x y loss(1) apply_weight_dict_def apply_weight_def nw
        apply_area_def na)
  have s: "reduce self loss = Num (fl_sum (map2 l1_elem (flatten x) (flatten y)))"
    if "reduction self = ''sum''"
    using that by (simp add: reduce_def tsum_def fl)
  have m: "reduce self loss =
      Num (fl_div_count (fl_sum (map2 l1_elem (flatten x) (flatten y))) (numel x))"
    if "reduction self = ''mean''"
    using that by (simp add: reduce_def tmean_def fl [symmetric] n)
  from len loss n nth kl s m show ?thesis by auto
qed

theorem L1Loss_key_loss_formula_witness:
  "L1Loss_key_loss \<lparr>reduction = ''mean'', weight = NoWeight\<rparr>
     [(''u'', Arr [Num (Fin 1), Num (Fin 3)])] [(''u'', Arr [Num (Fin 2), Num (Fin 5)])] None ''u'' =
     Inr (Num (Fin (3 / 2))) \<and>
   L1Loss_key_loss \<lparr>reduction = ''sum'', weight = NoWeight\<rparr>
     [(''u'', Arr [Num (Fin 1), Num (Fin 3)])] [(''u'', Arr [Num (Fin 2), Num (Fin 5)])] None ''u'' =
     Inr (Num (Fin 3))"
proof -
  let ?x = "Arr [Num (Fin 1), Num (Fin 3)]"
  let ?y = "Arr [Num (Fin 2), Num (Fin 5)]"
  have h: "map_of [(''u'', ?x)] ''area'' = None" "getitem [(''u'', ?x)] ''u'' = Inr ?x"
    "getitem [(''u'', ?y)] ''u'' = Inr ?y" "wf_tensor ?x" "wf_tensor ?y" "shape ?x = shape ?y"
    by (simp_all add: getitem_def)
  have v: "fl_sum (map2 l1_elem (flatten ?x) (flatten ?y)) = Fin 3" "numel ?x = 2"
    by (simp_all add: fl_sum_def l1_elem_def numel_def)
  from L1Loss_key_loss_formula [of "\<lparr>reduction = ''mean'', weight = NoWeight\<rparr>", OF _ h]
  have "L1Loss_key_loss \<lparr>reduction = ''mean'', weight = NoWeight\<rparr>
     [(''u'', ?x)] [(''u'', ?y)] None ''u'' =
     Inr (Num (fl_div_count (fl_sum (map2 l1_elem (flatten ?x) (flatten ?y))) (numel ?x)))"
    by simp
  moreover
  from L1Loss_key_loss_formula [of "\<lparr>reduction = ''sum'', weight = NoWeight\<rparr>", OF _ h]
  have "L1Loss_key_loss \<lparr>reduction = ''sum'', weight = NoWeight\<rparr>
     [(''u'', ?x)] [(''u'', ?y)] None ''u'' =
     Inr (Num (fl_sum (map2 l1_elem (flatten ?x) (flatten ?y))))"
    by simp
  ultimately show ?thesis by (simp only: v) simp
qed

text \<open>
  The claim without the condition on the shapes fails.  The output \<open>[[1], [3]]\<close> and the
  label \<open>[2, 5]\<close> have two elements each, and the formulas of the claim give
  \<open>\<bar>1 - 2\<bar> + \<bar>3 - 5\<bar> = 3\<close> and \<open>3 / 2\<close>; the difference of the two tensors is broadcast to
  \<open>[[1, 4], [1, 2]]\<close>, so the code returns 8 for the sum and \<open>8 / 4 = 2\<close> for the mean.
\<close>

theorem L1Loss_key_loss_formula_counterexample:
  "flatten (Arr [Arr [Num (Fin 1)], Arr [Num (Fin 3)]]) = map Fin [1, 3] \<and>
   flatten (Arr [Num (Fin 2), Num (Fin 5)]) = map Fin [2, 5] \<and>
   numel (Arr [Arr [Num (Fin 1)], Arr [Num (Fin 3)]]) = 2 \<and>
   numel (Arr [Num (Fin 2), Num (Fin 5)]) = 2 \<and>
   claimed_l1_sum [1, 3] [2, 5] = 3 \<and>
   claimed_l1_mean [1, 3] [2, 5] = 3 / 2 \<and>
   L1Loss_key_loss \<lparr>reduction = ''sum'', weight = NoWeight\<rparr>
     [(''u'', Arr [Arr [Num (Fin 1)], Arr [Num (Fin 3)]])]
     [(''u'', Arr [Num (Fin 2), Num (Fin 5)])] None ''u'' = Inr (Num (Fin 8)) \<and>
   L1Loss_key_loss \<lparr>reduction = ''mean'', weight = NoWeight\<rparr>
     [(''u'', Arr [Arr [Num (Fin 1)], Arr [Num (Fin 3)]])]
     [(''u'', Arr [Num (Fin 2), Num (Fin 5)])] None ''u'' = Inr (Num (Fin 2))"
  by (simp add: model_defs claimed_l1_sum_def claimed_l1_mean_def lessThan_Suc numeral_2_eq_2)


section \<open>The call-time weights\<close>

text \<open>
  Claim C7.  With a \<^verbatim>\<open>weight_dict\<close>, both variants multiply the elementwise loss of a key
  by \<^verbatim>\<open>weight_dict[key]\<close> and pass the product on to the reduction; nothing after the
  reduction uses \<^verbatim>\<open>weight_dict\<close>.  For \<^verbatim>\<open>L1Loss\<close> with the sum reduction and tensors of
  one shape the value is the sum of the products \<open>\<bar>x\<^sub>i - y\<^sub>i\<bar> * w\<^sub>i\<close>: the weight is inside
  the sum.
\<close>

theorem weight_dict_before_reduction:
  "L1Loss_key_loss self output_dict label_dict (Some wd) key =
     bind_err (getitem output_dict key) (\<lambda>out.
     bind_err (getitem label_dict key) (\<lambda>label.
     bind_err (l1_loss_none out label) (\<lambda>loss.
     bind_err (getitem wd key) (\<lambda>w.
     bind_err (mul loss w) (\<lambda>loss.
     bind_err (apply_weight self key loss) (\<lambda>loss.
     bind_err (apply_area output_dict loss) (\<lambda>loss.
     apply_weight self key (reduce self loss)))))))) \<and>
   PeriodicL1Loss_key_loss self output_dict (Some wd) key =
     bind_err (periodic_elementwise output_dict key) (\<lambda>loss.
     bind_err (getitem wd key) (\<lambda>w.
     bind_err (mul loss w) (\<lambda>loss.
     bind_err (apply_area output_dict loss) (\<lambda>loss.
     apply_weight self key (reduce self loss))))) \<and>
   (weight self = NoWeight \<and> map_of output_dict ''area'' = None \<and> reduction self = ''sum'' \<and>
    getitem output_dict key = Inr x \<and> getitem label_dict key = Inr y \<and> getitem wd key = Inr w \<and>
    wf_tensor x \<and> wf_tensor y \<and> wf_tensor w \<and> shape x = shape y \<and> shape x = shape w \<longrightarrow>
    L1Loss_key_loss self output_dict label_dict (Some wd) key =
      Inr (Num (fl_sum (map2 fl_mul (map2 l1_elem (flatten x) (flatten y)) (flatten w)))))"
proof (intro conjI impI)
  show "L1Loss_key_loss self output_dict label_dict (Some wd) key =
     bind_err (getitem output_dict key) (\<lambda>out.
     bind_err (getitem label_dict key) (\<lambda>label.
     bind_err (l1_loss_none out label) (\<lambda>loss.
     bind_err (getitem wd key) (\<lambda>w.
     bind_err (mul loss w) (\<lambda>loss.
     bind_err (apply_weight self key loss) (\<lambda>loss.
     bind_err (apply_area output_dict loss) (\<lambda>loss.
     apply_weight self key (reduce self loss))))))))"
    by (simp add: L1Loss_key_loss_def apply_weight_dict_def bind_err_assoc)
  show "PeriodicL1Loss_key_loss self output_dict (Some wd) key =
     bind_err (periodic_elementwise output_dict key) (\<lambda>loss.
     bind_err (getitem wd key) (\<lambda>w.
     bind_err (mul loss w) (\<lambda>loss.
     bind_err (apply_area output_dict loss) (\<lambda>loss.
     apply_weight self key (reduce self loss)))))"
    by (simp add: PeriodicL1Loss_key_loss_def apply_weight_dict_def bind_err_assoc)
next
  assume a: "weight self = NoWeight \<and> map_of output_dict ''area'' = None \<and>
    reduction self = ''sum'' \<and>
    getitem output_dict key = Inr x \<and> getitem label_dict key = Inr y \<and> getitem wd key = Inr w \<and>
    wf_tensor x \<and> wf_tensor y \<and> wf_tensor w \<and> shape x = shape y \<and> shape x = shape w"
  then have wf: "wf_tensor x" "wf_tensor y" "shape x = shape y" by simp_all
  from l1_loss_none_same_shape [OF wf] obtain loss
    where loss: "l1_loss_none x y = Inr loss" "wf_tensor loss" "shape loss = shape x"
      "flatten loss = map2 l1_elem (flatten x) (flatten y)"
    by blast
  from a have "wf_tensor w" "shape x = shape w" by blast+
  with loss(3) have wfw: "wf_tensor w" "shape loss = shape w" by simp_all
  from mul_same_shape [OF loss(2) wfw] obtain loss'
    where loss': "mul loss w = Inr loss'"
      "flatten loss' = map2 fl_mul (flatten loss) (flatten w)"
    by blast
  from a show "L1Loss_key_loss self output_dict label_dict (Some wd) key =
      Inr (Num (fl_sum (map2 fl_mul (map2 l1_elem (flatten x) (flatten y)) (flatten w))))"
    by (simp add: L1Loss_key_loss_def loss(1) loss' apply_weight_dict_def apply_weight_def
        apply_area_def reduce_def tsum_def loss(4))
qed

theorem weight_dict_before_reduction_witness:
  "L1Loss_key_loss \<lparr>reduction = ''sum'', weight = NoWeight\<rparr>
     [(''u'', Arr [Num (Fin 1), Num (Fin 3)])] [(''u'', Arr [Num (Fin 2), Num (Fin 5)])]
     (Some [(''u'', Arr [Num (Fin 1), Num (Fin 10)])]) ''u'' = Inr (Num (Fin 21))"
proof -
  let ?x = "Arr [Num (Fin 1), Num (Fin 3)]"
  let ?y = "Arr [Num (Fin 2), Num (Fin 5)]"
  let ?w = "Arr [Num (Fin 1), Num (Fin 10)]"
  let ?self = "\<lparr>reduction = ''sum'', weight = NoWeight\<rparr>"
  have h: "weight ?self = NoWeight \<and> map_of [(''u'', ?x)] ''area'' = None \<and>
    reduction ?self = ''sum'' \<and>
    getitem [(''u'', ?x)] ''u'' = Inr ?x \<and> getitem [(''u'', ?y)] ''u'' = Inr ?y \<and>
    getitem [(''u'', ?w)] ''u'' = Inr ?w \<and>
    wf_tensor ?x \<and> wf_tensor ?y \<and> wf_tensor ?w \<and> shape ?x = shape ?y \<and> shape ?x = shape ?w"
    by (simp add: getitem_def)
  from weight_dict_before_reduction [of ?self "[(''u'', ?x)]" "[(''u'', ?y)]" "[(''u'', ?w)]" "''u''"
      ?x ?y ?w] h
  have "L1Loss_key_loss ?self [(''u'', ?x)] [(''u'', ?y)] (Some [(''u'', ?w)]) ''u'' =
      Inr (Num (fl_sum (map2 fl_mul (map2 l1_elem (flatten ?x) (flatten ?y)) (flatten ?w))))"
    by blast
  then show ?thesis by (simp add: fl_sum_def l1_elem_def)
qed


section \<open>The area weights\<close>

text \<open>
  Claim C8.  When \<^verbatim>\<open>output_dict\<close> has the key \<open>''area''\<close>, both variants multiply the
  elementwise loss of every key by that tensor and pass the product on to the reduction;
  when the key is absent the loss goes to the reduction as it is.  For \<^verbatim>\<open>L1Loss\<close> with the
  sum reduction and tensors of one shape the value is the sum of the products
  \<open>\<bar>x\<^sub>i - y\<^sub>i\<bar> * area\<^sub>i\<close>.
\<close>

theorem area_before_reduction:
  "(map_of output_dict ''area'' = Some area \<longrightarrow>
      L1Loss_key_loss self output_dict label_dict weight_dict key =
        bind_err (getitem output_dict key) (\<lambda>out.
        bind_err (getitem label_dict key) (\<lambda>label.
        bind_err (l1_loss_none out label) (\<lambda>loss.
        bind_err (apply_weight_dict weight_dict key loss) (\<lambda>loss.
        bind_err (apply_weight self key loss) (\<lambda>loss.
        bind_err (mul loss area) (\<lambda>loss.
        apply_weight self key (reduce self loss))))))) \<and>
      PeriodicL1Loss_key_loss self output_dict weight_dict key =
        bind_err (periodic_elementwise output_dict key) (\<lambda>loss.
        bind_err (apply_weight_dict weight_dict key loss) (\<lambda>loss.
        bind_err (mul loss area) (\<lambda>loss.
        apply_weight self key (reduce self loss))))) \<and>
   (map_of output_dict ''area'' = None \<longrightarrow>
      L1Loss_key_loss self output_dict label_dict weight_dict key =
        bind_err (getitem output_dict key) (\<lambda>out.
        bind_err (getitem label_dict key) (\<lambda>label.
        bind_err (l1_loss_none out label) (\<lambda>loss.
        bind_err (apply_weight_dict weight_dict key loss) (\<lambda>loss.
        bind_err (apply_weight self key loss) (\<lambda>loss.
        apply_weight self key (reduce self loss)))))) \<and>
      PeriodicL1Loss_key_loss self output_dict weight_dict key =
        bind_err (periodic_elementwise output_dict key) (\<lambda>loss.
        bind_err (apply_weight_dict weight_dict key loss) (\<lambda>loss.
        apply_weight self key (reduce self loss)))) \<and>
   (weight self = NoWeight \<and> map_of output_dict ''area'' = Some area \<and>
    reduction self = ''sum'' \<and>
    getitem output_dict key = Inr x \<and> getitem label_dict key = Inr y \<and>
    wf_tensor x \<and> wf_tensor y \<and> wf_tensor area \<and> shape x = shape y \<and> shape x = shape area \<longrightarrow>
    L1Loss_key_loss self output_dict label_dict None key =
      Inr (Num (fl_sum (map2 fl_mul (map2 l1_elem (flatten x) (flatten y)) (flatten area)))))"
proof (intro conjI impI)
  assume "map_of output_dict ''area'' = Some area"
  then have ar: "apply_area output_dict loss = mul loss area" for loss
    by (simp add: apply_area_def)
  show "L1Loss_key_loss self output_dict label_dict weight_dict key =
        bind_err (getitem output_dict key) (\<lambda>out.
        bind_err (getitem label_dict key) (\<lambda>label.
        bind_err (l1_loss_none out label) (\<lambda>loss.
        bind_err (apply_weight_dict weight_dict key loss) (\<lambda>loss.
        bind_err (apply_weight self key loss) (\<lambda>loss.
        bind_err (mul loss area) (\<lambda>loss.
        apply_weight self key (reduce self loss)))))))"
    by (simp only: L1Loss_key_loss_def ar)
  show "PeriodicL1Loss_key_loss self output_dict weight_dict key =
        bind_err (periodic_elementwise output_dict key) (\<lambda>loss.
        bind_err (apply_weight_dict weight_dict key loss) (\<lambda>loss.
        bind_err (mul loss area) (\<lambda>loss.
        apply_weight self key (reduce self loss))))"
    by (simp only: PeriodicL1Loss_key_loss_def ar)
next
  assume "map_of output_dict ''area'' = None"
  then have ar: "apply_area output_dict loss = Inr loss" for loss
    by (simp add: apply_area_def)
  show "L1Loss_key_loss self output_dict label_dict weight_dict key =
        bind_err (getitem output_dict key) (\<lambda>out.
        bind_err (getitem label_dict key) (\<lambda>label.
        bind_err (l1_loss_none out label) (\<lambda>loss.
        bind_err (apply_weight_dict weight_dict key loss) (\<lambda>loss.
        bind_err (apply_weight self key loss) (\<lambda>loss.
        apply_weight self key (reduce self loss))))))"
    by (simp only: L1Loss_key_loss_def ar bind_err_simps)
  show "PeriodicL1Loss_key_loss self output_dict weight_dict key =
        bind_err (periodic_elementwise output_dict key) (\<lambda>loss.
        bind_err (apply_weight_dict weight_dict key loss) (\<lambda>loss.
        apply_weight self key (reduce self loss)))"
    by (simp only: PeriodicL1Loss_key_loss_def ar bind_err_simps)
next
  assume a: "weight self = NoWeight \<and> map_of output_dict ''area'' = Some area \<and>
    reduction self = ''sum'' \<and>
    getitem output_dict key = Inr x \<and> getitem label_dict key = Inr y \<and>
    wf_tensor x \<and> wf_tensor y \<and> wf_tensor area \<and> shape x = shape y \<and> shape x = shape area"
  then have wf: "wf_tensor x" "wf_tensor y" "shape x = shape y" by simp_all
  from l1_loss_none_same_shape [OF wf] obtain loss
    where loss: "l1_loss_none x y = Inr loss" "wf_tensor loss" "shape loss = shape x"
      "flatten loss = map2 l1_elem (flatten x) (flatten y)"
    by blast
  from a have "wf_tensor area" "shape x = shape area" by blast+
  with loss(3) have wfa: "wf_tensor area" "shape loss = shape area" by simp_all
  from mul_same_shape [OF loss(2) wfa] obtain loss'
    where loss': "mul loss area = Inr loss'"
      "flatten loss' = map2 fl_mul (flatten loss) (flatten area)"
    by blast
  from a show "L1Loss_key_loss self output_dict label_dict None key =
      Inr (Num (fl_sum (map2 fl_mul (map2 l1_elem (flatten x) (flatten y)) (flatten area))))"
    by (simp add: L1Loss_key_loss_def loss(1) loss' apply_weight_dict_def apply_weight_def
        apply_area_def reduce_def tsum_def loss(4))
qed

theorem area_before_reduction_witness:
  "L1Loss_key_loss \<lparr>reduction = ''sum'', weight = NoWeight\<rparr>
     [(''u'', Arr [Num (Fin 1), Num (Fin 3)]), (''area'', Arr [Num (Fin 1), Num (Fin 10)])]
     [(''u'', Arr [Num (Fin 2), Num (Fin 5)])] None ''u'' = Inr (Num (Fin 21)) \<and>
   L1Loss_key_loss \<lparr>reduction = ''sum'', weight = NoWeight\<rparr>
     [(''u'', Arr [Num (Fin 1), Num (Fin 3)])]
     [(''u'', Arr [Num (Fin 2), Num (Fin 5)])] None ''u'' = Inr (Num (Fin 3))"
proof -
  let ?x = "Arr [Num (Fin 1), Num (Fin 3)]"
  let ?y = "Arr [Num (Fin 2), Num (Fin 5)]"
  let ?a = "Arr [Num (Fin 1), Num (Fin 10)]"
  let ?od = "[(''u'', ?x), (''area'', ?a)]"
  let ?self = "\<lparr>reduction = ''sum'', weight = NoWeight\<rparr>"
  have h: "weight ?self = NoWeight \<and> map_of ?od ''area'' = Some ?a \<and>
    reduction ?self = ''sum'' \<and>
    getitem ?od ''u'' = Inr ?x \<and> getitem [(''u'', ?y)] ''u'' = Inr ?y \<and>
    wf_tensor ?x \<and> wf_tensor ?y \<and> wf_tensor ?a \<and> shape ?x = shape ?y \<and> shape ?x = shape ?a"
    by (simp add: getitem_def)
  from area_before_reduction [of ?od ?a ?self "[(''u'', ?y)]" None "''u''" ?x ?y] h
  have "L1Loss_key_loss ?self ?od [(''u'', ?y)] None ''u'' =
      Inr (Num (fl_sum (map2 fl_mul (map2 l1_elem (flatten ?x) (flatten ?y)) (flatten ?a))))"
    by blast
  then have 1: "L1Loss_key_loss ?self ?od [(''u'', ?y)] None ''u'' = Inr (Num (Fin 21))"
    by (simp add: fl_sum_def l1_elem_def)
  have n: "map_of [(''u'', ?x)] ''area'' = None" by simp
  from area_before_reduction [of "[(''u'', ?x)]" ?a ?self "[(''u'', ?y)]" None "''u''" ?x ?y] n
  have "L1Loss_key_loss ?self [(''u'', ?x)] [(''u'', ?y)] None ''u'' =
        bind_err (getitem [(''u'', ?x)] ''u'') (\<lambda>out.
        bind_err (getitem [(''u'', ?y)] ''u'') (\<lambda>label.
        bind_err (l1_loss_none out label) (\<lambda>loss.
        bind_err (apply_weight_dict None ''u'' loss) (\<lambda>loss.
        bind_err (apply_weight ?self ''u'' loss) (\<lambda>loss.
        apply_weight ?self ''u'' (reduce ?self loss))))))"
    by blast
  then have 2: "L1Loss_key_loss ?self [(''u'', ?x)] [(''u'', ?y)] None ''u'' = Inr (Num (Fin 3))"
    by (simp add: model_defs)
  from 1 2 show ?thesis by simp
qed


section \<open>The returned sum\<close>

text \<open>
  Claim C6.  On an object whose reduction is \<open>''mean''\<close> or \<open>''sum''\<close> (every constructed
  object), \<^verbatim>\<open>forward\<close> of either variant returns exactly when every key of \<^verbatim>\<open>label_dict\<close>
  has a value, each of these values is a scalar, and the result is the scalar
  \<open>0.0 + c\<^sub>1 + ... + c\<^sub>n\<close> of the values in the order of the keys; for an empty
  \<^verbatim>\<open>label_dict\<close> the result is \<open>0.0\<close>; and the result does not depend on entries of
  \<^verbatim>\<open>output_dict\<close> other than those of the label keys and of \<open>''area''\<close>.
\<close>

theorem forward_sums_key_losses:
  assumes red: "reduction self = ''mean'' \<or> reduction self = ''sum''"
  shows "L1Loss_forward self output_dict [] weight_dict = Inr (Num (Fin 0)) \<and>
     PeriodicL1Loss_forward self output_dict [] weight_dict = Inr (Num (Fin 0)) \<and>
     (L1Loss_forward self output_dict label_dict weight_dict = Inr v \<longleftrightarrow>
        (\<exists>cs. list_all2 (\<lambda>k c. L1Loss_key_loss self output_dict label_dict weight_dict k =
                  Inr (Num c)) (map fst label_dict) cs \<and>
           v = Num (fl_sum cs))) \<and>
     (PeriodicL1Loss_forward self output_dict label_dict weight_dict = Inr v \<longleftrightarrow>
        (\<exists>cs. list_all2 (\<lambda>k c. PeriodicL1Loss_key_loss self output_dict weight_dict k =
                  Inr (Num c)) (map fst label_dict) cs \<and>
           v = Num (fl_sum cs))) \<and>
     ((\<forall>k. k \<in> set (map fst label_dict) \<or> k = ''area'' \<longrightarrow>
          map_of output_dict' k = map_of output_dict k) \<longrightarrow>
        L1Loss_forward self output_dict' label_dict weight_dict =
          L1Loss_forward self output_dict label_dict weight_dict \<and>
        PeriodicL1Loss_forward self output_dict' label_dict weight_dict =
          PeriodicL1Loss_forward self output_dict label_dict weight_dict)"
proof (intro conjI impI)
  show "L1Loss_forward self output_dict [] weight_dict = Inr (Num (Fin 0))"
    by (simp add: L1Loss_forward_def)
  show "PeriodicL1Loss_forward self output_dict [] weight_dict = Inr (Num (Fin 0))"
    by (simp add: PeriodicL1Loss_forward_def)
  show "L1Loss_forward self output_dict label_dict weight_dict = Inr v \<longleftrightarrow>
        (\<exists>cs. list_all2 (\<lambda>k c. L1Loss_key_loss self output_dict label_dict weight_dict k =
                  Inr (Num c)) (map fst label_dict) cs \<and>
           v = Num (fl_sum cs))"
    unfolding L1Loss_forward_def fl_sum_def by (rule L1Loss_loop_sum [OF red])
  show "PeriodicL1Loss_forward self output_dict label_dict weight_dict = Inr v \<longleftrightarrow>
        (\<exists>cs. list_all2 (\<lambda>k c. PeriodicL1Loss_key_loss self output_dict weight_dict k =
                  Inr (Num c)) (map fst label_dict) cs \<and>
           v = Num (fl_sum cs))"
    unfolding PeriodicL1Loss_forward_def fl_sum_def by (rule PeriodicL1Loss_loop_sum [OF red])
next
  assume agree: "\<forall>k. k \<in> set (map fst label_dict) \<or> k = ''area'' \<longrightarrow>
          map_of output_dict' k = map_of output_dict k"
  show "L1Loss_forward self output_dict' label_dict weight_dict =
          L1Loss_forward self output_dict label_dict weight_dict"
    unfolding L1Loss_forward_def
    by (rule L1Loss_loop_cong, rule L1Loss_key_loss_cong) (use agree in blast)+
  show "PeriodicL1Loss_forward self output_dict' label_dict weight_dict =
          PeriodicL1Loss_forward self output_dict label_dict weight_dict"
    unfolding PeriodicL1Loss_forward_def
    by (rule PeriodicL1Loss_loop_cong, rule PeriodicL1Loss_key_loss_cong) (use agree in blast)+
qed


theorem forward_sums_key_losses_witness:
  "L1Loss_forward \<lparr>reduction = ''sum'', weight = NoWeight\<rparr>
     [(''u'', Arr [Num (Fin 1), Num (Fin 3)]), (''v'', Arr [Arr [Num (Fin 1)], Arr [Num (Fin 4)]])]
     [(''u'', Arr [Num (Fin 2), Num (Fin 5)]), (''v'', Arr [Arr [Num (Fin 1)], Arr [Num (Fin 2)]])]
     None = Inr (Num (Fin 5)) \<and>
   L1Loss_forward \<lparr>reduction = ''sum'', weight = NoWeight\<rparr>
     [(''u'', Arr [Num (Fin 1), Num (Fin 3)]), (''v'', Arr [Arr [Num (Fin 1)], Arr [Num (Fin 4)]]),
      (''p'', Arr [Num (Fin 7)])]
     [(''u'', Arr [Num (Fin 2), Num (Fin 5)]), (''v'', Arr [Arr [Num (Fin 1)], Arr [Num (Fin 2)]])]
     None = Inr (Num (Fin 5)) \<and>
   PeriodicL1Loss_forward \<lparr>reduction = ''sum'', weight = NoWeight\<rparr>
     [(''u'', Arr [Num (Fin 1), Num (Fin 3)]), (''v'', Arr [Arr [Num (Fin 1)], Arr [Num (Fin 4)]])]
     [(''u'', Arr [Num (Fin 2), Num (Fin 5)]), (''v'', Arr [Arr [Num (Fin 1)], Arr [Num (Fin 2)]])]
     None = Inr (Num (Fin 5))"
proof -
  let ?self = "\<lparr>reduction = ''sum'', weight = NoWeight\<rparr>"
  let ?od = "[(''u'', Arr [Num (Fin 1), Num (Fin 3)]),
    (''v'', Arr [Arr [Num (Fin 1)], Arr [Num (Fin 4)]])]"
  let ?od' = "[(''u'', Arr [Num (Fin 1), Num (Fin 3)]),
    (''v'', Arr [Arr [Num (Fin 1)], Arr [Num (Fin 4)]]), (''p'', Arr [Num (Fin 7)])]"
  let ?ld = "[(''u'', Arr [Num (Fin 2), Num (Fin 5)]),
    (''v'', Arr [Arr [Num (Fin 1)], Arr [Num (Fin 2)]])]"
  have red: "reduction ?self = ''mean'' \<or> reduction ?self = ''sum''" by simp
  note th = forward_sums_key_losses [OF red, of ?od None ?ld "Num (Fin 5)" ?od']
  have l1: "list_all2 (\<lambda>k c. L1Loss_key_loss ?self ?od ?ld None k = Inr (Num c))
      (map fst ?ld) [Fin 3, Fin 2]"
    by (simp add: model_defs)
  have per: "list_all2 (\<lambda>k c. PeriodicL1Loss_key_loss ?self ?od None k = Inr (Num c))
      (map fst ?ld) [Fin 2, Fin 3]"
    by (simp add: model_defs)
  have total: "Num (Fin 5) = Num (fl_sum [Fin 3, Fin 2])" "Num (Fin 5) = Num (fl_sum [Fin 2, Fin 3])"
    by (simp_all add: fl_sum_def)
  have agree: "\<forall>k. k \<in> set (map fst ?ld) \<or> k = ''area'' \<longrightarrow> map_of ?od' k = map_of ?od k"
    by simp
  from th l1 total(1) have 1: "L1Loss_forward ?self ?od ?ld None = Inr (Num (Fin 5))"
    by blast
  from th per total(2) have 2: "PeriodicL1Loss_forward ?self ?od ?ld None = Inr (Num (Fin 5))"
    by blast
  from th agree have "L1Loss_forward ?self ?od' ?ld None = L1Loss_forward ?self ?od ?ld None"
    by blast
  with 1 2 show ?thesis by simp
qed


section \<open>What a call leaves unchanged\<close>

text \<open>
  Claim C9.  A call of \<^verbatim>\<open>forward\<close> of either variant, whether it returns or raises, leaves
  \<^verbatim>\<open>self\<close> (reduction and weight) and the three dicts as they were, and every object that
  existed before the call (so every tensor of \<^verbatim>\<open>output_dict\<close>, \<^verbatim>\<open>label_dict\<close> and
  \<^verbatim>\<open>weight_dict\<close>) keeps its value: the call only adds objects to the store.  By
  \<open>forward_st_value\<close> the calls of this store model return the values of \<open>L1Loss_forward\<close>
  and \<open>PeriodicL1Loss_forward\<close>.
\<close>

theorem forward_leaves_inputs_unchanged:
  "(L1Loss_forward_st s = (r, s') \<or> PeriodicL1Loss_forward_st s = (r, s')) \<longrightarrow>
   self_obj s' = self_obj s \<and> output_refs s' = output_refs s \<and> label_refs s' = label_refs s \<and>
   weight_refs s' = weight_refs s \<and> take (length (heap s)) (heap s') = heap s"
proof
  assume "L1Loss_forward_st s = (r, s') \<or> PeriodicL1Loss_forward_st s = (r, s')"
  then have "frame s s'"
  proof
    assume "L1Loss_forward_st s = (r, s')"
    then have "L1Loss_loop_st (PyFloat (Fin 0)) (map fst (label_refs s)) s = (r, s')"
      by (simp add: L1Loss_forward_st_def)
    from keeps_frameD [OF keeps_frame_L1Loss_loop_st frame_refl this]
    show ?thesis by simp
  next
    assume "PeriodicL1Loss_forward_st s = (r, s')"
    then have "PeriodicL1Loss_loop_st (PyFloat (Fin 0)) (map fst (label_refs s)) s = (r, s')"
      by (simp add: PeriodicL1Loss_forward_st_def)
    from keeps_frameD [OF keeps_frame_PeriodicL1Loss_loop_st frame_refl this]
    show ?thesis by simp
  qed
  then show "self_obj s' = self_obj s \<and> output_refs s' = output_refs s \<and>
      label_refs s' = label_refs s \<and> weight_refs s' = weight_refs s \<and>
      take (length (heap s)) (heap s') = heap s"
    by (rule frame_unchanged)
qed


theorem forward_leaves_inputs_unchanged_witness:
  "L1Loss_forward_st
     \<lparr>heap = [Arr [Num (Fin 1), Num (Fin 3)], Arr [Num (Fin 2), Num (Fin 5)]],
      self_obj = \<lparr>reduction = ''sum'', weight = FloatWeight (Fin 2)\<rparr>,
      output_refs = [(''u'', 0)], label_refs = [(''u'', 1)], weight_refs = None\<rparr> =
   (Inr (TensorRef 4),
     \<lparr>heap = [Arr [Num (Fin 1), Num (Fin 3)], Arr [Num (Fin 2), Num (Fin 5)],
        Arr [Num (Fin 2), Num (Fin 4)], Num (Fin 12), Num (Fin 12)],
      self_obj = \<lparr>reduction = ''sum'', weight = FloatWeight (Fin 2)\<rparr>,
      output_refs = [(''u'', 0)], label_refs = [(''u'', 1)], weight_refs = None\<rparr>) \<and>
   take 2 [Arr [Num (Fin 1), Num (Fin 3)], Arr [Num (Fin 2), Num (Fin 5)],
        Arr [Num (Fin 2), Num (Fin 4)], Num (Fin 12), Num (Fin 12)] =
     [Arr [Num (Fin 1), Num (Fin 3)], Arr [Num (Fin 2), Num (Fin 5)]]"
proof -
  let ?s = "\<lparr>heap = [Arr [Num (Fin 1), Num (Fin 3)], Arr [Num (Fin 2), Num (Fin 5)]],
      self_obj = \<lparr>reduction = ''sum'', weight = FloatWeight (Fin 2)\<rparr>,
      output_refs = [(''u'', 0)], label_refs = [(''u'', 1)], weight_refs = None\<rparr>"
  let ?s' = "\<lparr>heap = [Arr [Num (Fin 1), Num (Fin 3)], Arr [Num (Fin 2), Num (Fin 5)],
        Arr [Num (Fin 2), Num (Fin 4)], Num (Fin 12), Num (Fin 12)],
      self_obj = \<lparr>reduction = ''sum'', weight = FloatWeight (Fin 2)\<rparr>,
      output_refs = [(''u'', 0)], label_refs = [(''u'', 1)], weight_refs = None\<rparr>"
  have run: "L1Loss_forward_st ?s = (Inr (TensorRef 4), ?s')"
    by (simp add: store_defs model_defs)
  then have "L1Loss_forward_st ?s = (Inr (TensorRef 4), ?s') \<or>
      PeriodicL1Loss_forward_st ?s = (Inr (TensorRef 4), ?s')" ..
  with forward_leaves_inputs_unchanged [of ?s "Inr (TensorRef 4)" ?s']
  have "take (length (heap ?s)) (heap ?s') = heap ?s" by blast
  with run show ?thesis by simp
qed


end
